theory Spec2Isabelle
  imports Complex_Main "HOL-Library.Word" "HOL-Library.AList"
begin

unbundle bit_operations_syntax

section \<open>Strings and numbers of JavaScript\<close>

text \<open>
  A JavaScript string is a sequence of 16-bit code units. \<open>ustr\<close> writes one from an ASCII
  literal. A number is \<open>NaN\<close>, one of the two infinities, or a finite value. Finite values
  are exact here (rounding to a double and the sign of zero are not modelled): \<open>Fin q\<close> is
  the rational \<open>q\<close>, and \<open>FinPi q\<close> is \<open>q\<close> times \<open>Math.PI\<close> for \<open>q \<noteq> 0\<close>.
\<close>

type_synonym jschar = "16 word"
type_synonym jsstring = "jschar list"

definition ustr :: "string \<Rightarrow> jsstring" where
  "ustr s = map of_char s"

datatype jsnum = NaN | PosInfinity | NegInfinity | Fin rat | FinPi rat

text \<open>\<open>String.prototype.substring(a, b)\<close>: both ends clamped to the length, swapped if needed.\<close>

definition substring :: "jsstring \<Rightarrow> nat \<Rightarrow> nat \<Rightarrow> jsstring" where
  "substring s a b =
     (let a' = min a (length s); b' = min b (length s)
      in take (max a' b' - min a' b') (drop (min a' b') s))"

text \<open>
  The white space and line terminators that \<open>parseInt\<close> and \<open>parseFloat\<close> skip at the
  start of their argument.
\<close>

definition isStrWhiteSpaceChar :: "jschar \<Rightarrow> bool" where
  "isStrWhiteSpaceChar c \<longleftrightarrow>
     c \<in> {0x09, 0x0A, 0x0B, 0x0C, 0x0D, 0x20, 0xA0, 0x1680, 0x2028, 0x2029, 0x202F, 0x205F,
          0x3000, 0xFEFF} \<or> (0x2000 \<le> c \<and> c \<le> 0x200A)"

definition digitValue :: "jschar \<Rightarrow> nat option" where
  "digitValue c =
     (if 0x30 \<le> c \<and> c \<le> 0x39 then Some (unat c - 0x30)
      else if 0x61 \<le> c \<and> c \<le> 0x7A then Some (unat c - 0x61 + 10)
      else if 0x41 \<le> c \<and> c \<le> 0x5A then Some (unat c - 0x41 + 10)
      else None)"

definition isRadixDigit :: "nat \<Rightarrow> jschar \<Rightarrow> bool" where
  "isRadixDigit R c = (case digitValue c of None \<Rightarrow> False | Some v \<Rightarrow> v < R)"

fun digitsValue :: "nat \<Rightarrow> nat \<Rightarrow> jsstring \<Rightarrow> nat" where
  "digitsValue R acc [] = acc"
| "digitsValue R acc (c # cs) =
     digitsValue R (acc * R + (case digitValue c of None \<Rightarrow> 0 | Some v \<Rightarrow> v)) cs"

text \<open>
  \<open>parseInt(string, 16)\<close>: skip white space, read a sign, drop a \<open>0x\<close> prefix, take the
  longest run of hexadecimal digits; no digit gives \<open>NaN\<close>.
\<close>

definition parseInt16 :: "jsstring \<Rightarrow> jsnum" where
  "parseInt16 inputString =
     (let S = dropWhile isStrWhiteSpaceChar inputString;
          sign = (if S \<noteq> [] \<and> hd S = 0x2D then - 1 else 1);
          S1 = (if S \<noteq> [] \<and> (hd S = 0x2B \<or> hd S = 0x2D) then tl S else S);
          S2 = (if take 2 S1 = ustr ''0x'' \<or> take 2 S1 = ustr ''0X'' then drop 2 S1 else S1);
          Z = takeWhile (isRadixDigit 16) S2
      in if Z = [] then NaN else Fin (sign * of_nat (digitsValue 16 0 Z)))"

text \<open>
  \<open>parseFloat(string)\<close>: skip white space, then the longest prefix that is a decimal
  literal (sign, \<open>Infinity\<close> or digits with an optional fraction and exponent).
\<close>

definition isDecimalDigit :: "jschar \<Rightarrow> bool" where
  "isDecimalDigit c \<longleftrightarrow> 0x30 \<le> c \<and> c \<le> 0x39"

definition exponentPart :: "jsstring \<Rightarrow> int" where
  "exponentPart s =
     (if s \<noteq> [] \<and> (hd s = 0x65 \<or> hd s = 0x45)
      then let t = tl s;
               neg = (t \<noteq> [] \<and> hd t = 0x2D);
               t' = (if t \<noteq> [] \<and> (hd t = 0x2B \<or> hd t = 0x2D) then tl t else t);
               ds = takeWhile isDecimalDigit t'
           in if neg then - int (digitsValue 10 0 ds) else int (digitsValue 10 0 ds)
      else 0)"

definition parseFloat :: "jsstring \<Rightarrow> jsnum" where
  "parseFloat inputString =
     (let S = dropWhile isStrWhiteSpaceChar inputString;
          neg = (S \<noteq> [] \<and> hd S = 0x2D);
          S1 = (if S \<noteq> [] \<and> (hd S = 0x2B \<or> hd S = 0x2D) then tl S else S)
      in if take 8 S1 = ustr ''Infinity'' then (if neg then NegInfinity else PosInfinity)
         else
           let ip = takeWhile isDecimalDigit S1;
               r1 = dropWhile isDecimalDigit S1;
               dot = (r1 \<noteq> [] \<and> hd r1 = 0x2E);
               fp = (if dot then takeWhile isDecimalDigit (tl r1) else []);
               r2 = (if dot then dropWhile isDecimalDigit (tl r1) else r1)
           in if ip = [] \<and> fp = [] then NaN
              else
                let m = of_nat (digitsValue 10 0 ip) + of_nat (digitsValue 10 0 fp) / 10 ^ length fp;
                    e = exponentPart r2;
                    v = (if 0 \<le> e then m * 10 ^ nat e else m / 10 ^ nat (- e))
                in Fin (if neg then - v else v))"

text \<open>
  Division of a number by a positive constant, and the product \<open>n * Math.PI\<close> of a number
  that \<open>parseFloat\<close> returned.
\<close>

fun numDiv :: "jsnum \<Rightarrow> rat \<Rightarrow> jsnum" where
  "numDiv (Fin v) d = Fin (v / d)"
| "numDiv (FinPi v) d = FinPi (v / d)"
| "numDiv n d = n"

fun timesPI :: "jsnum \<Rightarrow> jsnum" where
  "timesPI (Fin v) = (if v = 0 then Fin 0 else FinPi v)"
| "timesPI n = n"

subsection \<open>Values and errors\<close>

text \<open>
  The values the parser returns, and the values of a JSON document. An object keeps its
  properties in the order they were added.
\<close>

datatype jsvalue =
    JUndefined
  | JNull
  | JBool bool
  | JFunction
  | JNumber jsnum
  | JString jsstring
  | JArray "jsvalue list"
  | JObject "(jsstring \<times> jsvalue) list"

text \<open>
  Everything the modelled code throws, one constructor for each \<open>throw\<close> (named after its
  message), and \<open>TypeError\<close> for what the language itself raises when a property of
  \<open>undefined\<close> or \<open>null\<close> is read or a missing method is called.
\<close>

datatype error =
    IllegalHexColor jsstring
  | TypeError
  | NotSupportedScreenSize jsvalue jsvalue
  | ScriptsNotArray
  | ScriptNotUrl nat
  | ModesNotArray
  | NoStartingMode
  | TooManyStartingModes
  | AnimationFormError jsstring
  | AnimationNotLine jsstring
  | AnimationOutOfBounds int int jsstring
  | HitTheEnd jsstring

text \<open>Sequencing of two steps, the second of which runs when the first has not thrown.\<close>

definition bindE :: "error + 'a \<Rightarrow> ('a \<Rightarrow> error + 'b) \<Rightarrow> error + 'b" where
  "bindE m f = (case m of Inl e \<Rightarrow> Inl e | Inr v \<Rightarrow> f v)"

section \<open>Hex colors (parseHex, parseHexColor)\<close>

definition parseHex :: "jsstring \<Rightarrow> jsnum" where
  "parseHex str =
     (let divisor = (if length str = 2 then 255 else 15);
          str' = dropWhile (\<lambda>c. c = 0x30) str
      in if length str' = 0 then Fin 0 else numDiv (parseInt16 str') divisor)"

record color =
  colorR :: jsnum
  colorG :: jsnum
  colorB :: jsnum
  colorA :: jsnum

definition parseHexColor :: "jsstring \<Rightarrow> error + color" where
  "parseHexColor str =
     (if length str = 8 then
        Inr \<lparr>colorR = parseHex (substring str 0 2), colorG = parseHex (substring str 2 4),
             colorB = parseHex (substring str 4 6), colorA = parseHex (substring str 6 8)\<rparr>
      else if length str = 6 then
        Inr \<lparr>colorR = parseHex (substring str 0 2), colorG = parseHex (substring str 2 4),
             colorB = parseHex (substring str 4 6), colorA = Fin 1\<rparr>
      else if length str = 4 then
        Inr \<lparr>colorR = parseHex [str ! 0], colorG = parseHex [str ! 1],
             colorB = parseHex [str ! 2], colorA = parseHex [str ! 3]\<rparr>
      else if length str = 3 then
        Inr \<lparr>colorR = parseHex [str ! 0], colorG = parseHex [str ! 1],
             colorB = parseHex [str ! 2], colorA = Fin 1\<rparr>
      else if length str = 2 \<or> length str = 1 then
        Inr \<lparr>colorR = parseHex str, colorG = parseHex str, colorB = parseHex str,
             colorA = Fin 1\<rparr>
      else Inl (IllegalHexColor str))"


section \<open>Pixel buffers (quadplay-load.js, getImageData4Bit and getImageData4BitAndFlip)\<close>

text \<open>
  A pixel buffer is the \<open>Uint32Array\<close> of the source with its two extra properties
  \<open>width\<close> and \<open>height\<close>. Every element is one RGBA pixel, four 8-bit channels packed
  in a 32-bit word. The browser call \<open>getImageData\<close> is outside the file: the model
  starts from the buffer that call hands over.
\<close>

type_synonym u32 = "32 word"

record pixelBuffer =
  pixels :: "u32 list"
  width :: nat
  height :: nat

text \<open>
  The loop body of \<open>getImageData4Bit\<close>:
  \<^verbatim>\<open>const c = (data[i] >> 4) & 0x0F0F0F0F;  data[i] = (c << 4) | c;\<close>
  \<open>>>\<close> is the signed shift of JavaScript on the 32-bit value; the store into the
  \<open>Uint32Array\<close> keeps the low 32 bits.
\<close>

definition quantize :: "u32 \<Rightarrow> u32" where
  "quantize d = (let c = signed_drop_bit 4 d AND 0x0F0F0F0F in push_bit 4 c OR c)"

text \<open>\<^verbatim>\<open>for (let i = 0; i < N; ++i) { ... }\<close> with \<open>N = data.length\<close>.\<close>

function quantizeLoop :: "nat \<Rightarrow> nat \<Rightarrow> u32 list \<Rightarrow> u32 list" where
  "quantizeLoop i N data =
     (if i < N then quantizeLoop (i + 1) N (data[i := quantize (data ! i)]) else data)"
  by pat_completeness auto
termination
  by (relation "measure (\<lambda>(i, N, data). N - i)") auto

declare quantizeLoop.simps [simp del]

definition getImageData4Bit :: "pixelBuffer \<Rightarrow> pixelBuffer" where
  "getImageData4Bit img =
     img\<lparr>pixels := quantizeLoop 0 (length (pixels img)) (pixels img)\<rparr>"

text \<open>
  The per-channel map of the specification, \<open>v \<mapsto> ((v >> 4) & 0xF) * 17\<close>, on one 8-bit
  channel, and the four channels of a pixel, lowest byte first.
\<close>

definition quantize8 :: "8 word \<Rightarrow> 8 word" where
  "quantize8 v = (drop_bit 4 v AND 0xF) * 17"

definition channels :: "u32 \<Rightarrow> 8 word list" where
  "channels d = [ucast d, ucast (drop_bit 8 d), ucast (drop_bit 16 d), ucast (drop_bit 24 d)]"

text \<open>
  A read of a typed array past its end is \<open>undefined\<close>, which a \<open>Uint32Array\<close> stores
  as 0; a write past its end is dropped, as \<open>list_update\<close> does.
\<close>

definition readU32 :: "u32 list \<Rightarrow> nat \<Rightarrow> u32" where
  "readU32 a j = (if j < length a then a ! j else 0)"

text \<open>
  The two loops of \<open>getImageData4BitAndFlip\<close>:
  \<^verbatim>\<open>
  for (let y = 0; y < data.height; ++y) {
      for (let x = 0; x < data.width; ++x) {
          const i = x + y * data.width;
          const j = (data.width - 1 - x) + y * data.width;
          flipped[i] = data[j];
      }
  }\<close>
\<close>

function flipLoopX :: "pixelBuffer \<Rightarrow> nat \<Rightarrow> nat \<Rightarrow> u32 list \<Rightarrow> u32 list" where
  "flipLoopX data y x flipped =
     (if x < width data
      then let i = x + y * width data;
               j = (width data - 1 - x) + y * width data
           in flipLoopX data y (x + 1) (flipped[i := readU32 (pixels data) j])
      else flipped)"
  by pat_completeness auto
termination
  by (relation "measure (\<lambda>(data, y, x, flipped). width data - x)") auto

declare flipLoopX.simps [simp del]

function flipLoopY :: "pixelBuffer \<Rightarrow> nat \<Rightarrow> u32 list \<Rightarrow> u32 list" where
  "flipLoopY data y flipped =
     (if y < height data then flipLoopY data (y + 1) (flipLoopX data y 0 flipped) else flipped)"
  by pat_completeness auto
termination
  by (relation "measure (\<lambda>(data, y, flipped). height data - y)") auto

declare flipLoopY.simps [simp del]

definition getImageData4BitAndFlip :: "pixelBuffer \<Rightarrow> pixelBuffer \<times> pixelBuffer" where
  "getImageData4BitAndFlip img =
     (let data = getImageData4Bit img;
          flipped = \<lparr>pixels = replicate (length (pixels data)) 0,
                     width = width data, height = height data\<rparr>
      in (data, flipped\<lparr>pixels := flipLoopY data 0 (pixels flipped)\<rparr>))"

section \<open>Sprite sheets (loadSpritesheet)\<close>

text \<open>
  A sprite is a JavaScript object: its properties with their values, in the order in which
  they were added (\<open>map_of\<close> reads a property, \<open>None\<close> for \<open>undefined\<close>). The
  four orientation variants of a cell refer to each other, so they live in a store (a list
  of objects) and a reference is an index into it. \<open>PXY\<close> is one of the small frozen
  objects with an \<open>x\<close> and a \<open>y\<close> (\<open>tileIndex\<close>, \<open>size\<close>, and the scales \<open>PP\<close>, \<open>NP\<close>, \<open>PN\<close>,
  \<open>NN\<close>); \<open>PHypot a b\<close> is the number \<open>Math.hypot(a, b)\<close>; \<open>PSheet\<close> is the reference back to
  the sheet. The property names are those of the source, without the leading underscore
  of \<open>_tileX\<close>, \<open>_tileY\<close>, \<open>_boundingRadius\<close>, \<open>_x\<close>, \<open>_y\<close> and \<open>_hasAlpha\<close>.
\<close>

datatype pname =
    P_tileX | P_tileY | P_boundingRadius | P_x | P_y | P_hasAlpha | P_spritesheet
  | P_tileIndex | P_id | P_size | P_scale | P_flippedX | P_flippedY | P_lastSpriteID

datatype pval = PNum nat | PBool bool | PXY int int | PHypot nat nat | PSheet | PRef nat

type_synonym sprite = "(pname \<times> pval) list"
type_synonym store = "sprite list"

text \<open>\<open>Object.assign(target, source)\<close> copies every property of the source onto the target.\<close>

definition objectAssign :: "sprite \<Rightarrow> sprite \<Rightarrow> sprite" where
  "objectAssign target source = foldl (\<lambda>t (p, v). AList.update p v t) target source"

text \<open>\<open>o.p = v\<close> for the object at reference \<open>r\<close>.\<close>

definition setProp :: "store \<Rightarrow> nat \<Rightarrow> pname \<Rightarrow> pval \<Rightarrow> store" where
  "setProp h r p v = h[r := AList.update p v (h ! r)]"

text \<open>
  The sprite descriptor: \<open>spriteSize.x\<close>, \<open>spriteSize.y\<close>, \<open>spriteSize.gutter || 0\<close>,
  \<open>transpose\<close> as \<open>if\<close> reads it, and the \<open>names\<close> table when there is one. An entry of
  \<open>names\<close> has optional integer \<open>x\<close> and \<open>y\<close>, optional cells \<open>start\<close> and \<open>end\<close> (objects
  with optional integer \<open>x\<close> and \<open>y\<close>) and an optional \<open>extrapolate\<close> string.
\<close>

record cell =
  cellX :: "int option"
  cellY :: "int option"

record animation =
  animX :: "int option"
  animY :: "int option"
  animStart :: "cell option"
  animEnd :: "cell option"
  animExtrapolate :: "jsstring option"

record spritesheetJSON =
  spriteSizeX :: nat
  spriteSizeY :: nat
  gutter :: nat
  transpose :: bool
  names :: "(jsstring \<times> animation) list option"

text \<open>
  The sheet is a JavaScript array with further, named properties. A property name is an
  array index when it is the decimal notation, without leading zeros, of an integer below
  \<open>2^32 - 1 = 4294967295\<close>.
\<close>

definition arrayIndex :: "jsstring \<Rightarrow> nat option" where
  "arrayIndex p =
     (if p \<noteq> [] \<and> list_all isDecimalDigit p \<and> (hd p \<noteq> 0x30 \<or> length p = 1)
         \<and> int (digitsValue 10 0 p) < 4294967295
      then Some (digitsValue 10 0 p) else None)"

text \<open>
  The arrays that the sheet holds, the columns of the grid and the animations: their
  elements (a reference to a sprite, or \<open>None\<close> for \<open>undefined\<close>) and the \<open>extrapolate\<close>
  property of an animation.
\<close>

record jsarray =
  elems :: "nat option list"
  extrapolate :: "jsstring option"

text \<open>
  The sheet: the store of its sprite objects, its index properties \<open>0 ... length - 1\<close>
  (\<open>None\<close> is a hole), and the named properties that the name table adds. After the grid
  loops the index properties are the columns \<open>spritesheet[x]\<close>. The named properties of
  the constructor (\<open>_name\<close>, \<open>_gutter\<close>, \<open>spriteSize\<close>, \<open>size\<close>, ...) are read before the
  name table only and are left out; the prototype of the array is not modelled, so the
  name \<open>__proto__\<close> is taken as any other name.
\<close>

record spritesheet =
  sprites :: store
  elements :: "jsarray option list"
  named :: "(jsstring \<times> jsarray) list"

text \<open>
  The read \<open>spritesheet[p]\<close> and the write \<open>spritesheet[p] = a\<close> of an array \<open>a\<close>, for a
  name \<open>p\<close> other than \<open>length\<close>. A write at an index from \<open>length\<close> on extends the array
  and leaves holes. \<open>readElem\<close> is the read \<open>a[v]\<close>.
\<close>

definition getEntry :: "spritesheet \<Rightarrow> jsstring \<Rightarrow> jsarray option" where
  "getEntry sheet p =
     (case arrayIndex p of
        Some i \<Rightarrow> if i < length (elements sheet) then elements sheet ! i else None
      | None \<Rightarrow> map_of (named sheet) p)"

definition setEntry :: "spritesheet \<Rightarrow> jsstring \<Rightarrow> jsarray \<Rightarrow> spritesheet" where
  "setEntry sheet p a =
     (case arrayIndex p of
        Some i \<Rightarrow>
          sheet\<lparr>elements :=
            (elements sheet @ replicate (Suc i - length (elements sheet)) None)[i := Some a]\<rparr>
      | None \<Rightarrow> sheet\<lparr>named := AList.update p a (named sheet)\<rparr>)"

definition readElem :: "jsarray \<Rightarrow> nat \<Rightarrow> nat option" where
  "readElem a v = (if v < length (elems a) then elems a ! v else None)"

text \<open>
  The body of the inner loop from \<open>const sprite = {...}\<close> to the \<open>Object.freeze\<close> calls,
  one line for each statement. It returns the store, \<open>lastSpriteID\<close> and the reference
  of \<open>sprite\<close>.
  \<^verbatim>\<open>
  sprite.flippedX = Object.assign({flippedX:sprite}, sprite);
  sprite.flippedX.scale = NP;
  sprite.flippedX.lastSpriteID = ++lastSpriteID;
  sprite.flippedY = Object.assign({flippedY:sprite}, sprite);
  sprite.flippedY.lastSpriteID = ++lastSpriteID;
  sprite.flippedY.scale = PN;
  sprite.flippedX.flippedY = sprite.flippedY.flippedX = Object.assign({}, sprite);
  sprite.flippedY.flippedX.scale = NN;
  sprite.flippedY.flippedX.lastSpriteID = ++lastSpriteID;\<close>
\<close>

definition newSprite ::
  "spritesheetJSON \<Rightarrow> store \<Rightarrow> nat \<Rightarrow> nat \<Rightarrow> nat \<Rightarrow> bool \<Rightarrow> store \<times> nat \<times> nat" where
  "newSprite js h0 lastSpriteID u v hasAlpha =
     (let sprite =
            [(P_tileX, PNum u), (P_tileY, PNum v),
             (P_boundingRadius, PHypot (spriteSizeX js) (spriteSizeY js)),
             (P_x, PNum (u * (spriteSizeX js + gutter js))),
             (P_y, PNum (v * (spriteSizeY js + gutter js))),
             (P_hasAlpha, PBool hasAlpha), (P_spritesheet, PSheet),
             (P_tileIndex, PXY (int u) (int v)), (P_id, PNum (lastSpriteID + 1)),
             (P_size, PXY (int (spriteSizeX js)) (int (spriteSizeY js))),
             (P_scale, PXY 1 1)];
          r0 = length h0;
          h = h0 @ [sprite];
          r1 = length h;
          h = h @ [objectAssign [(P_flippedX, PRef r0)] (h ! r0)];
          h = setProp h r0 P_flippedX (PRef r1);
          h = setProp h r1 P_scale (PXY (- 1) 1);
          h = setProp h r1 P_lastSpriteID (PNum (lastSpriteID + 2));
          r2 = length h;
          h = h @ [objectAssign [(P_flippedY, PRef r0)] (h ! r0)];
          h = setProp h r0 P_flippedY (PRef r2);
          h = setProp h r2 P_lastSpriteID (PNum (lastSpriteID + 3));
          h = setProp h r2 P_scale (PXY 1 (- 1));
          r3 = length h;
          h = h @ [objectAssign [] (h ! r0)];
          h = setProp h r2 P_flippedX (PRef r3);
          h = setProp h r1 P_flippedY (PRef r3);
          h = setProp h r3 P_scale (PXY (- 1) (- 1));
          h = setProp h r3 P_lastSpriteID (PNum (lastSpriteID + 4))
      in (h, lastSpriteID + 4, r0))"

text \<open>
  The alpha scan of the cell at grid position \<open>(x, y)\<close>: some pixel of the block has an
  alpha byte below \<open>0xff\<close>. A read past the buffer is \<open>undefined\<close>, and
  \<open>undefined >>> 24\<close> is 0.
\<close>

definition hasAlphaAt :: "spritesheetJSON \<Rightarrow> pixelBuffer \<Rightarrow> nat \<Rightarrow> nat \<Rightarrow> bool" where
  "hasAlphaAt js data x y =
     list_ex (\<lambda>j.
       list_ex (\<lambda>i.
         drop_bit 24 (readU32 (pixels data)
            ((y * (spriteSizeY js + gutter js) + j) * width data
              + x * (spriteSizeX js + gutter js) + i)) < 0xFF)
         [0..<spriteSizeX js])
       [0..<spriteSizeY js]"

text \<open>
  \<open>Math.floor(n / d)\<close> as a loop bound: for \<open>d = 0\<close> the quotient is \<open>Infinity\<close> (\<open>None\<close>:
  a loop up to it does not end) or, for \<open>0 / 0\<close>, \<open>NaN\<close> (no round at all, as for 0).
\<close>

definition gridCount :: "nat \<Rightarrow> nat \<Rightarrow> nat option" where
  "gridCount n d = (if d = 0 then (if n = 0 then Some 0 else None) else Some (n div d))"

text \<open>
  The loop over \<open>y\<close> for the column \<open>x\<close> and the loop over \<open>x\<close>, each given the list of
  the values its counter takes. \<open>newCell\<close> is one round of the inner loop: it adds the
  sprite of the cell \<open>(x, y)\<close> to the column.
\<close>

definition newCell ::
  "spritesheetJSON \<Rightarrow> pixelBuffer \<Rightarrow> nat \<Rightarrow> nat \<Rightarrow> store \<times> nat \<times> nat list
    \<Rightarrow> store \<times> nat \<times> nat list" where
  "newCell js data x y st =
     (case st of (h, lastSpriteID, column) \<Rightarrow>
        (case newSprite js h lastSpriteID (if transpose js then y else x)
                (if transpose js then x else y) (hasAlphaAt js data x y) of
           (h', lastSpriteID', sprite) \<Rightarrow> (h', lastSpriteID', column @ [sprite])))"

fun columnLoop ::
  "spritesheetJSON \<Rightarrow> pixelBuffer \<Rightarrow> nat \<Rightarrow> nat list \<Rightarrow> store \<times> nat \<times> nat list
    \<Rightarrow> store \<times> nat \<times> nat list" where
  "columnLoop js data x [] st = st"
| "columnLoop js data x (y # ys) st = columnLoop js data x ys (newCell js data x y st)"

definition newColumn ::
  "spritesheetJSON \<Rightarrow> pixelBuffer \<Rightarrow> nat \<Rightarrow> nat \<Rightarrow> store \<times> nat \<times> nat list list
    \<Rightarrow> store \<times> nat \<times> nat list list" where
  "newColumn js data rows x st =
     (case st of (h, lastSpriteID, g) \<Rightarrow>
        (case columnLoop js data x [0..<rows] (h, lastSpriteID, []) of
           (h', lastSpriteID', column) \<Rightarrow> (h', lastSpriteID', g @ [column])))"

fun gridLoop ::
  "spritesheetJSON \<Rightarrow> pixelBuffer \<Rightarrow> nat \<Rightarrow> nat list \<Rightarrow> store \<times> nat \<times> nat list list
    \<Rightarrow> store \<times> nat \<times> nat list list" where
  "gridLoop js data rows [] st = st"
| "gridLoop js data rows (x # xs) st = gridLoop js data rows xs (newColumn js data rows x st)"

definition spriteGrid ::
  "spritesheetJSON \<Rightarrow> pixelBuffer \<Rightarrow> nat \<Rightarrow> (store \<times> nat \<times> nat list list) option" where
  "spriteGrid js data lastSpriteID =
     (let rows0 = gridCount (height data + gutter js) (spriteSizeY js + gutter js);
          cols0 = gridCount (width data + gutter js) (spriteSizeX js + gutter js);
          rows = (if transpose js then cols0 else rows0);
          cols = (if transpose js then rows0 else cols0)
      in case cols of
           None \<Rightarrow> None
         | Some c \<Rightarrow>
             (case rows of
                None \<Rightarrow> if c = 0 then Some ([], lastSpriteID, []) else None
              | Some r \<Rightarrow> Some (gridLoop js data r [0..<c] ([], lastSpriteID, []))))"

text \<open>
  The name table. The cells of a range are visited as the two loops do,
  \<^verbatim>\<open>for (let y = data.start.y; y <= data.end.y; ++y)
    for (let x = data.start.x; x <= data.end.x; ++x) ...\<close>
  and a comparison with \<open>undefined\<close> is false, so a loop with a missing bound has no
  round.
\<close>

definition rangeCells :: "cell \<Rightarrow> cell \<Rightarrow> (int \<times> int) list" where
  "rangeCells start end' =
     (case (cellY start, cellY end') of
        (Some sy, Some ey) \<Rightarrow>
          (case (cellX start, cellX end') of
             (Some sx, Some ex) \<Rightarrow> concat (map (\<lambda>y. map (\<lambda>x. (x, y)) [sx..ex]) [sy..ey])
           | _ \<Rightarrow> [])
      | _ \<Rightarrow> [])"

text \<open>
  The body of the loops, for the cells still to visit:
  \<^verbatim>\<open>
  const u = json.transpose ? y : x, v = json.transpose ? x : y;
  if (u < 0 || u >= spritesheet.length || v < 0 || v >= spritesheet[0].length) {
      throw new Error('Index xy(' + u + ', ' + v + ') in animation "' + anim + '" is out of bounds.');
  }
  spritesheet[anim].push(spritesheet[u][v]);\<close>
  All reads are reads of the sheet as it is at that moment, with the animation that is
  being filled stored in it. A property read from \<open>undefined\<close> (a hole at
  \<open>spritesheet[0]\<close> or \<open>spritesheet[u]\<close>) is a \<open>TypeError\<close>.
\<close>

definition pushElem :: "jsarray \<Rightarrow> nat option \<Rightarrow> jsarray" where
  "pushElem a value = a\<lparr>elems := elems a @ [value]\<rparr>"

fun pushCells ::
  "spritesheet \<Rightarrow> bool \<Rightarrow> jsstring \<Rightarrow> (int \<times> int) list \<Rightarrow> error + spritesheet" where
  "pushCells sheet tr anim [] = Inr sheet"
| "pushCells sheet tr anim ((x, y) # rest) =
     (let u = (if tr then y else x); v = (if tr then x else y)
      in if u < 0 \<or> u \<ge> int (length (elements sheet)) \<or> v < 0
         then Inl (AnimationOutOfBounds u v anim)
         else
           (case elements sheet ! 0 of
              None \<Rightarrow> Inl TypeError
            | Some column0 \<Rightarrow>
                if v \<ge> int (length (elems column0)) then Inl (AnimationOutOfBounds u v anim)
                else
                  (case getEntry sheet anim of
                     None \<Rightarrow> Inl TypeError
                   | Some a \<Rightarrow>
                       (case elements sheet ! nat u of
                          None \<Rightarrow> Inl TypeError
                        | Some column \<Rightarrow>
                            pushCells (setEntry sheet anim (pushElem a (readElem column (nat v))))
                              tr anim rest))))"

text \<open>
  One round of \<open>for (let anim in json.names)\<close>: the check of the two forms, the defaults
  for \<open>end\<close>, the check of the line, then
  \<^verbatim>\<open>
  spritesheet[anim] = [];
  spritesheet[anim].extrapolate = data.extrapolate || 'loop';\<close>
  and the loops. For the name \<open>length\<close> the first statement sets the length of the sheet
  to 0 and the second one sets a property of the number \<open>spritesheet.length\<close>, which is a
  \<open>TypeError\<close> in strict mode.
\<close>

definition decodeAnimation ::
  "spritesheet \<Rightarrow> bool \<Rightarrow> jsstring \<Rightarrow> animation \<Rightarrow> error + spritesheet" where
  "decodeAnimation sheet tr anim data =
     (if (animStart data \<noteq> None \<and> animX data \<noteq> None)
         \<or> (animStart data = None \<and> animX data = None)
      then Inl (AnimationFormError anim)
      else
        let (start, end0, extrapolate0) =
              (case animStart data of
                 None \<Rightarrow> (\<lparr>cellX = animX data, cellY = animY data\<rparr>, None, Some (ustr ''clamp''))
               | Some s \<Rightarrow> (s, animEnd data, animExtrapolate data));
            end1 = (case end0 of None \<Rightarrow> start | Some e \<Rightarrow> e);
            end2 = end1\<lparr>cellX := (case cellX end1 of None \<Rightarrow> cellX start | Some ex \<Rightarrow> Some ex)\<rparr>;
            end3 = end2\<lparr>cellY := (case cellY end2 of None \<Rightarrow> cellY start | Some ey \<Rightarrow> Some ey)\<rparr>;
            extrapolate1 = (case extrapolate0 of
                              None \<Rightarrow> ustr ''loop''
                            | Some e \<Rightarrow> if e = [] then ustr ''loop'' else e)
        in if cellX start \<noteq> cellX end3 \<and> cellY start \<noteq> cellY end3
           then Inl (AnimationNotLine anim)
           else if anim = ustr ''length'' then Inl TypeError
           else
             let sheet1 = setEntry sheet anim \<lparr>elems = [], extrapolate = None\<rparr>;
                 sheet2 = setEntry sheet1 anim \<lparr>elems = [], extrapolate = Some extrapolate1\<rparr>
             in pushCells sheet2 tr anim (rangeCells start end3))"

text \<open>
  The loop over the entries of \<open>json.names\<close>, in the order in which \<open>for ... in\<close> visits
  them; every round works on the sheet that the rounds before it have left.
\<close>

fun namesLoop ::
  "spritesheet \<Rightarrow> bool \<Rightarrow> (jsstring \<times> animation) list \<Rightarrow> error + spritesheet" where
  "namesLoop sheet tr [] = Inr sheet"
| "namesLoop sheet tr ((anim, data) # rest) =
     (case decodeAnimation sheet tr anim data of
        Inl e \<Rightarrow> Inl e
      | Inr sheet' \<Rightarrow> namesLoop sheet' tr rest)"

text \<open>
  \<open>loadSpritesheet\<close>: the image filter \<open>getImageData4BitAndFlip\<close> and the completion
  handler, from the grid to the name table (the resource statistics are left out). The
  grid loops fill the empty array with one frozen column for each \<open>x\<close> (\<open>gridColumn\<close>).
  \<open>None\<close> is a handler that does not return (a loop bound of \<open>Infinity\<close>).
\<close>

definition gridColumn :: "nat list \<Rightarrow> jsarray option" where
  "gridColumn column = Some \<lparr>elems = map Some column, extrapolate = None\<rparr>"

definition loadSpritesheet ::
  "spritesheetJSON \<Rightarrow> pixelBuffer \<Rightarrow> nat \<Rightarrow> (error + spritesheet \<times> nat) option" where
  "loadSpritesheet js img lastSpriteID =
     (let data = fst (getImageData4BitAndFlip img)
      in case spriteGrid js data lastSpriteID of
           None \<Rightarrow> None
         | Some (h, lastSpriteID', g) \<Rightarrow>
             (let sheet = \<lparr>sprites = h, elements = map gridColumn g, named = []\<rparr>
              in Some (case (case names js of
                               None \<Rightarrow> Inr sheet
                             | Some ns \<Rightarrow> namesLoop sheet (transpose js) ns)
                       of Inl e \<Rightarrow> Inl e
                        | Inr sheet' \<Rightarrow> Inr (sheet', lastSpriteID'))))"
section \<open>Notions for the statements about sheets\<close>

text \<open>
  The tile \<open>(u, v)\<close> of the cell \<open>(x, y)\<close> of the grid (\<open>tu\<close>, \<open>tv\<close>); the four variants of
  a cell, stored at \<open>s\<close>, \<open>s + 1\<close> (flip-X), \<open>s + 2\<close> (flip-Y) and \<open>s + 3\<close> (flip-both), as
  the tile-map loader reaches them from \<open>s\<close> (\<open>variantsAt\<close>); a column of the grid whose
  cells all have them (\<open>columnOK\<close>).
\<close>

definition tu :: "spritesheetJSON \<Rightarrow> nat \<Rightarrow> nat \<Rightarrow> nat" where
  "tu js x y = (if transpose js then y else x)"

definition tv :: "spritesheetJSON \<Rightarrow> nat \<Rightarrow> nat \<Rightarrow> nat" where
  "tv js x y = (if transpose js then x else y)"

definition variantsAt :: "store \<Rightarrow> nat \<Rightarrow> nat \<Rightarrow> nat \<Rightarrow> bool" where
  "variantsAt h s u v \<longleftrightarrow>
     s + 3 < length h
   \<and> map_of (h ! s) P_flippedX = Some (PRef (s + 1))
   \<and> map_of (h ! s) P_flippedY = Some (PRef (s + 2))
   \<and> map_of (h ! (s + 1)) P_flippedY = Some (PRef (s + 3))
   \<and> map_of (h ! s) P_scale = Some (PXY 1 1)
   \<and> map_of (h ! (s + 1)) P_scale = Some (PXY (- 1) 1)
   \<and> map_of (h ! (s + 2)) P_scale = Some (PXY 1 (- 1))
   \<and> map_of (h ! (s + 3)) P_scale = Some (PXY (- 1) (- 1))
   \<and> (\<forall>k < 4. map_of (h ! (s + k)) P_tileIndex = Some (PXY (int u) (int v)))"

definition columnOK :: "spritesheetJSON \<Rightarrow> store \<Rightarrow> nat \<Rightarrow> nat \<Rightarrow> nat list \<Rightarrow> bool" where
  "columnOK js h rows x col \<longleftrightarrow>
     length col = rows \<and> (\<forall>y < rows. variantsAt h (col ! y) (tu js x y) (tv js x y))"

text \<open>
  An array of the sheet all of whose elements are \<open>undefined\<close> or sprites with their four
  variants (\<open>refsOK\<close>, which also holds of a hole), and a sheet all of whose index
  properties are such arrays (\<open>sheetOK\<close>).
\<close>

definition refsOK :: "store \<Rightarrow> jsarray option \<Rightarrow> bool" where
  "refsOK h a \<longleftrightarrow>
     (case a of
        None \<Rightarrow> True
      | Some a \<Rightarrow> \<forall>s. Some s \<in> set (elems a) \<longrightarrow> (\<exists>u v. variantsAt h s u v))"

definition sheetOK :: "spritesheet \<Rightarrow> bool" where
  "sheetOK sheet \<longleftrightarrow> (\<forall>a \<in> set (elements sheet). refsOK (sprites sheet) a)"

text \<open>
  A name of the name table that is a named property of the sheet: not an array index,
  not \<open>length\<close> and not \<open>__proto__\<close>.
\<close>

definition plainName :: "jsstring \<Rightarrow> bool" where
  "plainName n \<longleftrightarrow> arrayIndex n = None \<and> n \<noteq> ustr ''length'' \<and> n \<noteq> ustr ''__proto__''"

text \<open>
  A sprite descriptor whose name table, if it has one, holds such names only
  (\<open>plainNames\<close>), and one whose name table does not hold the name \<open>__proto__\<close>, the
  one name that the model of the sheet does not cover (\<open>protoFree\<close>).
\<close>

definition plainNames :: "spritesheetJSON \<Rightarrow> bool" where
  "plainNames js \<longleftrightarrow>
     (case names js of None \<Rightarrow> True | Some ns \<Rightarrow> list_all (\<lambda>(n, d). plainName n) ns)"

definition protoFree :: "spritesheetJSON \<Rightarrow> bool" where
  "protoFree js \<longleftrightarrow>
     (case names js of
        None \<Rightarrow> True
      | Some ns \<Rightarrow> list_all (\<lambda>(n, d). n \<noteq> ustr ''__proto__'') ns)"

text \<open>
  A cell \<open>(x, y)\<close> of an animation range that passes the bounds check of the name table
  and lies in a column that is there, and what is pushed for it, \<open>spritesheet[u][v]\<close>.
\<close>

definition inGrid :: "spritesheet \<Rightarrow> bool \<Rightarrow> int \<Rightarrow> int \<Rightarrow> bool" where
  "inGrid sheet tr x y \<longleftrightarrow>
     (let u = (if tr then y else x); v = (if tr then x else y)
      in 0 \<le> u \<and> u < int (length (elements sheet)) \<and> 0 \<le> v
         \<and> (case elements sheet ! 0 of None \<Rightarrow> False | Some column0 \<Rightarrow> v < int (length (elems column0)))
         \<and> elements sheet ! nat u \<noteq> None)"

definition cellAt :: "spritesheet \<Rightarrow> bool \<Rightarrow> int \<Rightarrow> int \<Rightarrow> nat option" where
  "cellAt sheet tr x y =
     (case elements sheet ! nat (if tr then y else x) of
        None \<Rightarrow> None
      | Some column \<Rightarrow> readElem column (nat (if tr then x else y)))"

text \<open>The \<open>extrapolate\<close> property of a range: \<open>data.extrapolate || 'loop'\<close>.\<close>

definition extrapolateOf :: "animation \<Rightarrow> jsstring" where
  "extrapolateOf d =
     (case animExtrapolate d of
        None \<Rightarrow> ustr ''loop''
      | Some e \<Rightarrow> if e = [] then ustr ''loop'' else e)"

section \<open>Example data\<close>

text \<open>
  A sheet of four cells of one pixel each in one row, loaded with \<open>lastSpriteID = 100\<close>, and
  an animation entry whose end lies before its start.
\<close>

definition exampleJSON :: spritesheetJSON where
  "exampleJSON =
     \<lparr>spriteSizeX = 1, spriteSizeY = 1, gutter = 0, transpose = False, names = None\<rparr>"

definition exampleImage :: pixelBuffer where
  "exampleImage =
     \<lparr>pixels = [0xFF0000FF, 0xFF00FF00, 0xFFFF0000, 0x7F000000], width = 4, height = 1\<rparr>"

definition exampleSheet :: spritesheet where
  "exampleSheet =
     (case loadSpritesheet exampleJSON exampleImage 100 of
        Some (Inr (sheet, lastSpriteID)) \<Rightarrow> sheet
      | _ \<Rightarrow> \<lparr>sprites = [], elements = [], named = []\<rparr>)"

definition rangeEntry :: "int \<Rightarrow> int \<Rightarrow> int \<Rightarrow> int \<Rightarrow> animation" where
  "rangeEntry sx sy ex ey =
     \<lparr>animX = None, animY = None, animStart = Some \<lparr>cellX = Some sx, cellY = Some sy\<rparr>,
      animEnd = Some \<lparr>cellX = Some ex, cellY = Some ey\<rparr>, animExtrapolate = None\<rparr>"

definition cellEntry :: "int \<Rightarrow> int \<Rightarrow> animation" where
  "cellEntry x y =
     \<lparr>animX = Some x, animY = Some y, animStart = None, animEnd = None, animExtrapolate = None\<rparr>"

section \<open>Tile maps (loadMap)\<close>

text \<open>
  The body of the loop over the cells of a layer, for one GID: the value that is stored in
  the layer (\<open>None\<close> is \<open>undefined\<close>, the empty cell) or the \<open>TypeError\<close> of a property
  read from \<open>undefined\<close>. The GID is the 32-bit value that \<open>&\<close> sees; \<open>columns\<close> is the
  \<open>columns\<close> attribute of the tile set, where 0 also stands for a missing attribute
  (\<open>NaN\<close>): \<open>tmxIndex % columns\<close> is then \<open>NaN\<close>, \<open>spritesheet[NaN]\<close> is the property
  of the name \<open>NaN\<close>, and the row (\<open>NaN\<close> or \<open>Infinity\<close>) is no element of an array.
  \<^verbatim>\<open>
  const tileFlipX = (gid & 0x80000000) !== 0;
  const tileFlipY = (gid & 0x40000000) !== 0;
  const tmxIndex  = (gid & 0x0fffffff) - 1;
  if (tmxIndex >= 0) {
      const sx = tmxIndex % columns;
      const sy = Math.floor(tmxIndex / columns);
      let sprite = spritesheet[sx][sy];
      if (tileFlipX) { sprite = sprite.flippedX; }
      if (tileFlipY) { sprite = sprite.flippedY; }
      layer[x][...] = sprite;
  } else { layer[x][...] = undefined; }\<close>
\<close>

definition readRef :: "store \<Rightarrow> pname \<Rightarrow> nat option \<Rightarrow> error + nat option" where
  "readRef h p sprite =
     (case sprite of
        None \<Rightarrow> Inl TypeError
      | Some r \<Rightarrow> Inr (case map_of (h ! r) p of Some (PRef q) \<Rightarrow> Some q | _ \<Rightarrow> None))"

definition tileSprite :: "spritesheet \<Rightarrow> nat \<Rightarrow> u32 \<Rightarrow> error + nat option" where
  "tileSprite sheet columns gid =
     (let tileFlipX = (gid AND 0x80000000 \<noteq> 0);
          tileFlipY = (gid AND 0x40000000 \<noteq> 0);
          tmxIndex = uint (gid AND 0x0FFFFFFF) - 1
      in if tmxIndex \<ge> 0 then
           let sx = nat tmxIndex mod columns;
               sy = nat tmxIndex div columns
           in case (if columns = 0 then map_of (named sheet) (ustr ''NaN'')
                    else if sx < length (elements sheet) then elements sheet ! sx else None) of
                None \<Rightarrow> Inl TypeError
              | Some column \<Rightarrow>
                  let sprite = (if columns = 0 then None else readElem column sy)
                  in bindE (if tileFlipX then readRef (sprites sheet) P_flippedX sprite
                            else Inr sprite) (\<lambda>sprite.
                       if tileFlipY then readRef (sprites sheet) P_flippedY sprite
                       else Inr sprite)
         else Inr None)"
section \<open>The literal parser (_parse)\<close>

text \<open>\<^verbatim>\<open>while (chars.indexOf(source[i]) !== -1) { ++i; }\<close>: past the end \<open>source[i]\<close> is
  \<open>undefined\<close>, which is in no such set.\<close>

function skipChars :: "jsstring \<Rightarrow> jsstring \<Rightarrow> nat \<Rightarrow> nat" where
  "skipChars chars source i =
     (if i < length source \<and> source ! i \<in> set chars then skipChars chars source (i + 1) else i)"
  by pat_completeness auto
termination
  by (relation "measure (\<lambda>(chars, source, i). length source - i)") auto

declare skipChars.simps [simp del]

text \<open>\<^verbatim>\<open>while (i < source.length && source[i] !== c) { ++i; }\<close>\<close>

function scanTo :: "jschar \<Rightarrow> jsstring \<Rightarrow> nat \<Rightarrow> nat" where
  "scanTo c source i =
     (if i < length source \<and> source ! i \<noteq> c then scanTo c source (i + 1) else i)"
  by pat_completeness auto
termination
  by (relation "measure (\<lambda>(c, source, i). length source - i)") auto

declare scanTo.simps [simp del]

text \<open>\<^verbatim>\<open>while (i < source.length && (source[i] !== '"' || source[i - 1] === '\\')) { ++i; }\<close>\<close>

function scanString :: "jsstring \<Rightarrow> nat \<Rightarrow> nat" where
  "scanString source i =
     (if i < length source \<and> (source ! i \<noteq> 0x22 \<or> source ! (i - 1) = 0x5C)
      then scanString source (i + 1) else i)"
  by pat_completeness auto
termination
  by (relation "measure (\<lambda>(source, i). length source - i)") auto

declare scanString.simps [simp del]

text \<open>\<open>regexIndexOf(text, re, i)\<close> for a regular expression that is one character class.\<close>

definition regexIndexOf :: "jsstring \<Rightarrow> (jschar \<Rightarrow> bool) \<Rightarrow> nat \<Rightarrow> nat" where
  "regexIndexOf text re i =
     (let suffix = substring text i (length text);
          indexInSuffix = length (takeWhile (\<lambda>c. \<not> re c) suffix)
      in if indexInSuffix = length suffix then length text else indexInSuffix + i)"

definition atomSeparator :: "jschar \<Rightarrow> bool" where
  "atomSeparator c \<longleftrightarrow> c \<in> set (ustr '',:[{}] '') \<or> c = 0x0A \<or> c = 0x09 \<or> c = 0x22"

definition keySeparator :: "jschar \<Rightarrow> bool" where
  "keySeparator c \<longleftrightarrow> c = 0x3A \<or> c = 0x20 \<or> c = 0x0A \<or> c = 0x09 \<or> c = 0x22"

text \<open>
  \<open>toLowerCase\<close> folds the letters A to Z; code units outside Basic Latin are kept as
  they are (the case table of the other scripts is not modelled).
\<close>

definition toLowerCase :: "jsstring \<Rightarrow> jsstring" where
  "toLowerCase s = map (\<lambda>c. if 0x41 \<le> c \<and> c \<le> 0x5A then c + 0x20 else c) s"

definition endsWith :: "jsstring \<Rightarrow> jsstring \<Rightarrow> bool" where
  "endsWith s suffix \<longleftrightarrow> length suffix \<le> length s \<and> drop (length s - length suffix) s = suffix"

text \<open>
  The table of named constants, in the order of the \<open>switch\<close>. \<open>Math.pi\<close> is not a
  property of \<open>Math\<close> (the constant is \<open>Math.PI\<close>): the expression is \<open>undefined\<close>, and
  \<open>-Math.pi\<close> is \<open>NaN\<close>.
\<close>

definition namedConstants :: "(jsstring \<times> jsvalue) list" where
  "namedConstants =
    [(ustr ''true'', JBool True), (ustr ''false'', JBool False),
     (ustr ''nil'', JUndefined), ([0x2205], JUndefined), (ustr ''builtin'', JUndefined),
     (ustr ''function'', JFunction),
     (ustr ''infinity'', JNumber PosInfinity), ([0x221E], JNumber PosInfinity),
     (ustr ''+infinity'', JNumber PosInfinity), ([0x2B, 0x221E], JNumber PosInfinity),
     (ustr ''-infinity'', JNumber NegInfinity), ([0x2D, 0x221E], JNumber NegInfinity),
     (ustr ''nan'', JNumber NaN),
     ([0x3C0], JUndefined),
     ([0x2D, 0x3C0], JNumber NaN),
     ([0xBC], JNumber (Fin (1/4))), ([0xBD], JNumber (Fin (1/2))), ([0xBE], JNumber (Fin (3/4))),
     ([0x2153], JNumber (Fin (1/3))), ([0x2154], JNumber (Fin (2/3))),
     ([0x2155], JNumber (Fin (1/5))), ([0x2156], JNumber (Fin (2/5))),
     ([0x2157], JNumber (Fin (3/5))), ([0x2158], JNumber (Fin (4/5))),
     ([0x2159], JNumber (Fin (1/6))), ([0x215A], JNumber (Fin (5/6))),
     ([0x2150], JNumber (Fin (1/7))),
     ([0x215B], JNumber (Fin (1/8))), ([0x215C], JNumber (Fin (3/8))),
     ([0x215D], JNumber (Fin (5/8))), ([0x215E], JNumber (Fin (7/8))),
     ([0x2151], JNumber (Fin (1/9))), ([0x2152], JNumber (Fin (1/10))),
     ([0x2D, 0xBC], JNumber (Fin (- 1/4))), ([0x2D, 0xBD], JNumber (Fin (- 1/2))),
     ([0x2D, 0xBE], JNumber (Fin (- 3/4))),
     ([0x2D, 0x2153], JNumber (Fin (- 1/3))), ([0x2D, 0x2154], JNumber (Fin (- 2/3))),
     ([0x2D, 0x2155], JNumber (Fin (- 1/5))), ([0x2D, 0x2156], JNumber (Fin (- 2/5))),
     ([0x2D, 0x2157], JNumber (Fin (- 3/5))), ([0x2D, 0x2158], JNumber (Fin (- 4/5))),
     ([0x2D, 0x2159], JNumber (Fin (- 1/6))), ([0x2D, 0x215A], JNumber (Fin (- 5/6))),
     ([0x2D, 0x2150], JNumber (Fin (- 1/7))),
     ([0x2D, 0x215B], JNumber (Fin (- 1/8))), ([0x2D, 0x215C], JNumber (Fin (- 3/8))),
     ([0x2D, 0x215D], JNumber (Fin (- 5/8))), ([0x2D, 0x215E], JNumber (Fin (- 7/8))),
     ([0x2D, 0x2151], JNumber (Fin (- 1/9))), ([0x2D, 0x2152], JNumber (Fin (- 1/10)))]"

text \<open>The \<open>switch\<close> on the token, with its \<open>default\<close> branch.\<close>

definition atomValue :: "jsstring \<Rightarrow> jsvalue" where
  "atomValue token =
     (case map_of namedConstants token of
        Some v \<Rightarrow> v
      | None \<Rightarrow>
          if endsWith token (ustr ''deg'') \<or> endsWith token [0xB0]
          then JNumber (numDiv (timesPI (parseFloat token)) 180)
          else if endsWith token (ustr ''%'') then JNumber (numDiv (parseFloat token) 100)
          else JNumber (parseFloat token))"

text \<open>The property key of a parsed key (always a string).\<close>

fun keyString :: "jsvalue \<Rightarrow> jsstring" where
  "keyString (JString s) = s"
| "keyString v = []"

text \<open>
  The parser. The first argument bounds the number of nested calls and loop rounds;
  \<open>None\<close> is the answer of a run that would need more. A thrown error is \<open>Inl\<close>.
  \<open>parseArray\<close> and \<open>parseTable\<close> are the loops of the \<open>[\<close> and \<open>{\<close> cases, entered at the
  loop test with the elements read so far.
\<close>

fun parse :: "nat \<Rightarrow> jsstring \<Rightarrow> nat \<Rightarrow> (error + jsvalue \<times> nat) option"
  and parseArray :: "nat \<Rightarrow> jsstring \<Rightarrow> nat \<Rightarrow> jsvalue list \<Rightarrow> (error + jsvalue \<times> nat) option"
  and parseTable ::
    "nat \<Rightarrow> jsstring \<Rightarrow> nat \<Rightarrow> (jsstring \<times> jsvalue) list \<Rightarrow> (error + jsvalue \<times> nat) option"
where
  "parse 0 source i0 = None"
| "parse (Suc n) source i0 =
     (let i = skipChars [0x20, 0x09, 0x0A] source i0
      in if \<not> i < length source then Some (Inl (HitTheEnd source))
         else if source ! i = 0x22 then
           (let begin = i + 1; e = scanString source begin
            in Some (Inr (JString (substring source begin e), e + 1)))
         else if source ! i = 0x5B then
           parseArray n source (skipChars [0x20, 0x09, 0x0A] source (i + 1)) []
         else if source ! i = 0x7B then
           parseTable n source (skipChars [0x20, 0x09, 0x0A] source (i + 1)) []
         else
           (let e = regexIndexOf source atomSeparator i;
                token = toLowerCase (substring source i e)
            in Some (Inr (atomValue token, e + 1))))"
| "parseArray 0 source i a = None"
| "parseArray (Suc n) source i a =
     (if i < length source \<and> source ! i \<noteq> 0x5D then
        (case parse n source i of
           None \<Rightarrow> None
         | Some (Inl err) \<Rightarrow> Some (Inl err)
         | Some (Inr (child, next)) \<Rightarrow>
             if child = JString [0x2026]
             then Some (Inr (JArray [], scanTo 0x5D source i + 1))
             else parseArray n source (skipChars [0x2C, 0x20, 0x09, 0x0A] source next)
                    (a @ [child]))
      else Some (Inr (JArray a, i + 1)))"
| "parseTable 0 source i t = None"
| "parseTable (Suc n) source i t =
     (if i < length source \<and> source ! i \<noteq> 0x7D then
        (case (if source ! i = 0x22 then parse n source i
               else (let e = regexIndexOf source keySeparator i
                     in Some (Inr (JString (substring source i e), e)))) of
           None \<Rightarrow> None
         | Some (Inl err) \<Rightarrow> Some (Inl err)
         | Some (Inr (key, i1)) \<Rightarrow>
             if key = JString [0x2026]
             then Some (Inr (JObject [], scanTo 0x7D source i1 + 1))
             else
               (case parse n source (skipChars [0x3A, 0x20, 0x09, 0x0A] source i1) of
                  None \<Rightarrow> None
                | Some (Inl err) \<Rightarrow> Some (Inl err)
                | Some (Inr (v, next)) \<Rightarrow>
                    parseTable n source (skipChars [0x2C, 0x20, 0x09, 0x0A] source next)
                      (AList.update (keyString key) v t)))
      else Some (Inr (JObject t, i + 1)))"

section \<open>The game manifest (the completion handler in afterLoadGame)\<close>

text \<open>
  The manifest is a JSON object, given by its properties. \<open>getProp\<close> is the property read
  \<open>v.name\<close> for the names the loader reads (\<open>x\<close>, \<open>y\<close>), none of which is a built-in
  property of a string, a number or an array: reading them from \<open>undefined\<close> or \<open>null\<close>
  is a \<open>TypeError\<close>, from an object the stored value or \<open>undefined\<close>, from anything else
  \<open>undefined\<close>.
\<close>

definition field :: "(jsstring \<times> jsvalue) list \<Rightarrow> string \<Rightarrow> jsvalue" where
  "field obj name = (case map_of obj (ustr name) of None \<Rightarrow> JUndefined | Some v \<Rightarrow> v)"

fun getProp :: "jsvalue \<Rightarrow> string \<Rightarrow> error + jsvalue" where
  "getProp JUndefined name = Inl TypeError"
| "getProp JNull name = Inl TypeError"
| "getProp (JObject obj) name = Inr (field obj name)"
| "getProp v name = Inr JUndefined"

text \<open>What \<open>if (v)\<close> takes as true.\<close>

fun truthy :: "jsvalue \<Rightarrow> bool" where
  "truthy JUndefined = False"
| "truthy JNull = False"
| "truthy (JBool b) = b"
| "truthy (JNumber n) = (n \<noteq> NaN \<and> n \<noteq> Fin 0)"
| "truthy (JString s) = (s \<noteq> [])"
| "truthy v = True"

text \<open>
  \<open>gameSource\<close> as far as the handler fills it up to the end of the mode stage, and the
  fetches it has scheduled with \<open>loadManager.fetch\<close> (URL and kind), in order.
\<close>

record gameSource =
  jsonURL :: jsstring
  json :: "(jsstring \<times> jsvalue) list"
  scripts :: "jsstring list"
  modes :: "(jsstring \<times> jsstring) list"
  fetches :: "(jsstring \<times> string) list"

text \<open>
  \<^verbatim>\<open>if (gameJSON.screenSize === undefined) { gameJSON.screenSize = {x: 384, y:224}; }\<close>
\<close>

definition defaultScreenSize :: "(jsstring \<times> jsvalue) list \<Rightarrow> (jsstring \<times> jsvalue) list" where
  "defaultScreenSize gameJSON =
     (if field gameJSON ''screenSize'' = JUndefined
      then AList.update (ustr ''screenSize'')
             (JObject [(ustr ''x'', JNumber (Fin 384)), (ustr ''y'', JNumber (Fin 224))]) gameJSON
      else gameJSON)"

definition allowedScreenSizes :: "(rat \<times> rat) list" where
  "allowedScreenSizes = [(384, 224), (192, 112), (128, 128), (64, 64)]"

text \<open>\<open>n === v\<close> for a finite number \<open>n\<close>.\<close>

definition strictEqNum :: "rat \<Rightarrow> jsvalue \<Rightarrow> bool" where
  "strictEqNum n v \<longleftrightarrow> v = JNumber (Fin n)"

text \<open>The loop over \<open>allowedScreenSizes\<close> that sets \<open>ok\<close>, and the \<open>throw\<close> after it.\<close>

definition checkScreenSize :: "(jsstring \<times> jsvalue) list \<Rightarrow> error + unit" where
  "checkScreenSize gameJSON =
     bindE (getProp (field gameJSON ''screenSize'') ''x'') (\<lambda>sx.
     bindE (getProp (field gameJSON ''screenSize'') ''y'') (\<lambda>sy.
       if list_ex (\<lambda>(ax, ay). strictEqNum ax sx \<and> strictEqNum ay sy) allowedScreenSizes
       then Inr ()
       else Inl (NotSupportedScreenSize sx sy)))"

text \<open>
  The script stage. \<open>makeURLAbsolute\<close> reads \<open>location.href\<close>; the model takes it as an
  argument.
\<close>

fun scriptsLoop ::
  "(jsstring \<Rightarrow> jsstring \<Rightarrow> jsstring) \<Rightarrow> jsstring \<Rightarrow> jsvalue list \<Rightarrow> nat \<Rightarrow> gameSource
    \<Rightarrow> error + gameSource" where
  "scriptsLoop makeURLAbsolute gameURL [] i gs = Inr gs"
| "scriptsLoop makeURLAbsolute gameURL (s # rest) i gs =
     (case s of
        JString script \<Rightarrow>
          (let scriptURL = makeURLAbsolute gameURL script
           in scriptsLoop makeURLAbsolute gameURL rest (i + 1)
                (gs\<lparr>scripts := scripts gs @ [scriptURL],
                    fetches := fetches gs @ [(scriptURL, ''text'')]\<rparr>))
      | _ \<Rightarrow> Inl (ScriptNotUrl i))"

definition loadScripts ::
  "(jsstring \<Rightarrow> jsstring \<Rightarrow> jsstring) \<Rightarrow> jsstring \<Rightarrow> gameSource \<Rightarrow> error + gameSource" where
  "loadScripts makeURLAbsolute gameURL gs =
     (let gs0 = gs\<lparr>scripts := []\<rparr>
      in if truthy (field (json gs) ''scripts'') then
           (case field (json gs) ''scripts'' of
              JArray xs \<Rightarrow> scriptsLoop makeURLAbsolute gameURL xs 0 gs0
            | _ \<Rightarrow> Inl ScriptsNotArray)
         else Inr gs0)"

text \<open>
  The mode stage. An entry that is not a string has no \<open>replace\<close> method: the call is a
  \<open>TypeError\<close>. \<open>name.replace('*', '')\<close> removes the first \<open>*\<close> (\<open>modeURL\<close> is the
  value of the constant of that name in the loop);
  \<open>name.indexOf('*') !== -1\<close> holds when the name has one.
\<close>

definition modeURL ::
  "(jsstring \<Rightarrow> jsstring \<Rightarrow> jsstring) \<Rightarrow> jsstring \<Rightarrow> jsstring \<Rightarrow> jsstring" where
  "modeURL makeURLAbsolute gameURL name =
     makeURLAbsolute gameURL (remove1 0x2A name @ ustr ''.pyxl'')"

fun modesLoop ::
  "(jsstring \<Rightarrow> jsstring \<Rightarrow> jsstring) \<Rightarrow> jsstring \<Rightarrow> jsvalue list \<Rightarrow> nat \<Rightarrow> gameSource
    \<Rightarrow> error + nat \<times> gameSource" where
  "modesLoop makeURLAbsolute gameURL [] numStartModes gs = Inr (numStartModes, gs)"
| "modesLoop makeURLAbsolute gameURL (m # rest) numStartModes gs =
     (case m of
        JString name \<Rightarrow>
          (let url = modeURL makeURLAbsolute gameURL name
           in modesLoop makeURLAbsolute gameURL rest
                (if 0x2A \<in> set name then numStartModes + 1 else numStartModes)
                (gs\<lparr>modes := modes gs @ [(name, url)],
                    fetches := fetches gs @ [(url, ''text'')]\<rparr>))
      | _ \<Rightarrow> Inl TypeError)"

definition loadModes ::
  "(jsstring \<Rightarrow> jsstring \<Rightarrow> jsstring) \<Rightarrow> jsstring \<Rightarrow> gameSource \<Rightarrow> error + gameSource" where
  "loadModes makeURLAbsolute gameURL gs =
     (case field (json gs) ''modes'' of
        JArray xs \<Rightarrow>
          (case modesLoop makeURLAbsolute gameURL xs 0 (gs\<lparr>modes := []\<rparr>) of
             Inl e \<Rightarrow> Inl e
           | Inr (numStartModes, gs') \<Rightarrow>
               if numStartModes = 0 then Inl NoStartingMode
               else if numStartModes > 1 then Inl TooManyStartingModes
               else Inr gs')
      | _ \<Rightarrow> Inl ModesNotArray)"

text \<open>
  The handler of the manifest fetch, from its first line to the end of the mode stage
  (the constant and asset stages that follow are not part of the model).
\<close>

definition onGameJSON ::
  "(jsstring \<Rightarrow> jsstring \<Rightarrow> jsstring) \<Rightarrow> jsstring \<Rightarrow> (jsstring \<times> jsvalue) list
    \<Rightarrow> error + gameSource" where
  "onGameJSON makeURLAbsolute gameURL gameJSON =
     (let gameJSON' = defaultScreenSize gameJSON;
          gs = \<lparr>jsonURL = gameURL, json = gameJSON', scripts = [], modes = [], fetches = []\<rparr>
      in bindE (checkScreenSize gameJSON') (\<lambda>_.
         bindE (loadScripts makeURLAbsolute gameURL gs) (\<lambda>gs1.
           loadModes makeURLAbsolute gameURL gs1)))"

section \<open>Quantization\<close>

lemma nibble_mask:
  "(0x0F0F0F0F :: u32) = mask 4 OR push_bit 8 (mask 4) OR push_bit 16 (mask 4) OR push_bit 24 (mask 4)"
  by (simp add: mask_eq_exp_minus_1)

lemma bit_nibble_mask:
  "bit (0x0F0F0F0F :: u32) n \<longleftrightarrow>
     n < 4 \<or> 8 \<le> n \<and> n < 12 \<or> 16 \<le> n \<and> n < 20 \<or> 24 \<le> n \<and> n < 28"
  unfolding nibble_mask by (auto simp add: bit_simps)

lemma nibble_mask_lt: "bit (0x0F0F0F0F :: u32) m \<Longrightarrow> m < 28"
  unfolding bit_nibble_mask by arith

lemma nibble_mask_shift: "bit (0x0F0F0F0F :: u32) m \<Longrightarrow> \<not> bit (0x0F0F0F0F :: u32) (m + 4)"
  unfolding bit_nibble_mask by arith

lemma nibble_mask_unshift:
  "bit (0x0F0F0F0F :: u32) (m - 4) \<Longrightarrow> 4 \<le> m \<Longrightarrow> \<not> bit (0x0F0F0F0F :: u32) m"
  unfolding bit_nibble_mask by arith

lemma bit_signed_drop_4: "m < 28 \<Longrightarrow> bit (signed_drop_bit 4 d) m = bit d (m + 4)" for d :: u32
  by (simp add: bit_signed_drop_bit_iff add.commute)

lemma bit_high_nibbles:
  "bit (signed_drop_bit 4 d AND 0x0F0F0F0F) m \<longleftrightarrow> bit (0x0F0F0F0F :: u32) m \<and> bit d (m + 4)"
  for d :: u32
  using nibble_mask_lt [of m] bit_signed_drop_4 [of m d]
  by (auto simp only: bit_and_iff)

lemma bit_quantize:
  "bit (quantize d) n \<longleftrightarrow>
     bit (0x0F0F0F0F :: u32) n \<and> bit d (n + 4) \<or>
     4 \<le> n \<and> bit (0x0F0F0F0F :: u32) (n - 4) \<and> bit d n"
proof -
  have "bit (quantize d) n \<longleftrightarrow>
     bit (push_bit 4 (signed_drop_bit 4 d AND 0x0F0F0F0F)) n \<or>
     bit (signed_drop_bit 4 d AND 0x0F0F0F0F) n"
    unfolding quantize_def Let_def by (simp only: bit_or_iff)
  also have "bit (push_bit 4 (signed_drop_bit 4 d AND 0x0F0F0F0F)) n \<longleftrightarrow>
     4 \<le> n \<and> n < 32 \<and> bit (signed_drop_bit 4 d AND 0x0F0F0F0F) (n - 4)"
    by (simp only: bit_push_bit_iff possible_bit_word) simp
  finally show ?thesis
    unfolding bit_high_nibbles using nibble_mask_lt [of "n - 4"] by auto
qed

lemma quantize_idem: "quantize (quantize d) = quantize d"
proof (rule bit_word_eqI)
  fix n
  show "bit (quantize (quantize d)) n = bit (quantize d) n"
    unfolding bit_quantize [of "quantize d"]
    unfolding bit_quantize [of d]
    using nibble_mask_shift [of n] nibble_mask_unshift [of n] nibble_mask_shift [of "n - 4"]
    by auto
qed

lemma bit_quantize8:
  "bit (quantize8 v) n \<longleftrightarrow> n < 8 \<and> bit v (if n < 4 then n + 4 else n)"
proof -
  define t where "t = drop_bit 4 v AND 0xF"
  have m: "(0xF :: 8 word) = mask 4" by (simp add: mask_eq_exp_minus_1)
  have t: "bit t m \<longleftrightarrow> m < 4 \<and> bit v (m + 4)" for m
    unfolding t_def m by (auto simp add: bit_simps add.commute)
  have "quantize8 v = push_bit 4 t + t"
    by (simp add: quantize8_def t_def push_bit_eq_mult)
  also have "\<dots> = push_bit 4 t OR t"
    by (rule disjunctive_add) (auto simp add: bit_push_bit_iff t)
  finally have "bit (quantize8 v) n \<longleftrightarrow> bit (push_bit 4 t) n \<or> bit t n"
    by (simp only: bit_or_iff)
  also have "bit (push_bit 4 t) n \<longleftrightarrow> 4 \<le> n \<and> n < 8 \<and> bit t (n - 4)"
    by (simp only: bit_push_bit_iff possible_bit_word) simp
  finally show ?thesis
    unfolding t by auto
qed

lemma bit_channel:
  "bit (ucast (drop_bit k d) :: 8 word) m \<longleftrightarrow> m < 8 \<and> bit d (k + m)" for d :: u32
  by (auto simp add: bit_ucast_iff bit_drop_bit_eq)

lemma quantize_channel_bit:
  assumes "k = 0 \<or> k = 8 \<or> k = 16 \<or> k = 24" and "n < 8"
  shows "bit (quantize d) (k + n) \<longleftrightarrow> bit d (k + (if n < 4 then n + 4 else n))"
proof (cases "n < 4")
  case True
  with assms have "bit (0x0F0F0F0F :: u32) (k + n)"
    unfolding bit_nibble_mask by arith
  with True nibble_mask_unshift [of "k + n"] show ?thesis
    unfolding bit_quantize by (auto simp add: add.assoc)
next
  case False
  with assms have "bit (0x0F0F0F0F :: u32) (k + n - 4)" and "4 \<le> k + n"
    unfolding bit_nibble_mask by arith+
  with False nibble_mask_unshift [of "k + n"] show ?thesis
    unfolding bit_quantize by auto
qed

lemma channel_quantize:
  assumes "k = 0 \<or> k = 8 \<or> k = 16 \<or> k = 24"
  shows "(ucast (drop_bit k (quantize d)) :: 8 word) = quantize8 (ucast (drop_bit k d))"
proof (rule bit_word_eqI)
  fix n assume "n < LENGTH(8)"
  then have n: "n < 8" by simp
  have "bit (ucast (drop_bit k (quantize d)) :: 8 word) n \<longleftrightarrow> bit (quantize d) (k + n)"
    using n by (simp only: bit_channel) simp
  also have "\<dots> \<longleftrightarrow> bit d (k + (if n < 4 then n + 4 else n))"
    using assms n by (rule quantize_channel_bit)
  also have "\<dots> \<longleftrightarrow> bit (quantize8 (ucast (drop_bit k d))) n"
    unfolding bit_quantize8 bit_channel using n by auto
  finally show "bit (ucast (drop_bit k (quantize d)) :: 8 word) n
      = bit (quantize8 (ucast (drop_bit k d))) n" .
qed

lemma channels_quantize: "channels (quantize d) = map quantize8 (channels d)"
  using channel_quantize [of 0 d] channel_quantize [of 8 d]
    channel_quantize [of 16 d] channel_quantize [of 24 d]
  by (simp add: channels_def)

lemma unat_quantize8: "unat (quantize8 v) = unat v div 16 * 17"
proof -
  have m: "(0xF :: 8 word) = mask 4" by (simp add: mask_eq_exp_minus_1)
  have "drop_bit 4 v AND 0xF = drop_bit 4 v"
    unfolding m by (rule bit_word_eqI) (auto simp add: bit_simps dest: bit_imp_le_length)
  then have q: "quantize8 v = drop_bit 4 v * 17" by (simp add: quantize8_def)
  have "unat (drop_bit 4 v) = drop_bit 4 (unat v)"
    by (rule unat_drop_bit_eq)
  then have d: "unat (drop_bit 4 v) = unat v div 16"
    by (simp only: drop_bit_eq_div) simp
  have "unat v < 256" using unsigned_less [of v, where 'a = nat] by simp
  then have "unat v div 16 < 16" by simp
  then have "unat (drop_bit 4 v) * unat (17 :: 8 word) < 2 ^ LENGTH(8)"
    unfolding d by simp
  then have "unat (drop_bit 4 v * 17) = unat (drop_bit 4 v) * unat (17 :: 8 word)"
    by (simp only: unat_mult_lem)
  then show ?thesis unfolding q d by simp
qed
lemma quantizeLoop_eq:
  "N = length data \<Longrightarrow> i \<le> N \<Longrightarrow>
   quantizeLoop i N data = take i data @ map quantize (drop i data)"
proof (induction i N data rule: quantizeLoop.induct)
  case (1 i N data)
  show ?case
  proof (cases "i < N")
    case True
    with "1.prems" have d: "drop i data = data ! i # drop (Suc i) data"
      by (simp add: Cons_nth_drop_Suc)
    from True "1.prems" have
      "quantizeLoop (i + 1) N (data[i := quantize (data ! i)])
        = take (i + 1) (data[i := quantize (data ! i)])
          @ map quantize (drop (i + 1) (data[i := quantize (data ! i)]))"
      by (intro "1.IH") simp_all
    also have "\<dots> = take i data @ quantize (data ! i) # map quantize (drop (Suc i) data)"
      using True "1.prems" by (simp add: take_Suc_conv_app_nth)
    finally show ?thesis
      using True d by (subst quantizeLoop.simps) simp
  next
    case False
    with "1.prems" show ?thesis by (subst quantizeLoop.simps) simp
  qed
qed

lemma pixels_getImageData4Bit: "pixels (getImageData4Bit img) = map quantize (pixels img)"
  by (simp add: getImageData4Bit_def quantizeLoop_eq)

text \<open>
  C4. Quantization maps every 8-bit channel \<open>v\<close> of every pixel to
  \<open>((v >> 4) & 0xF) * 17\<close> (\<open>quantize8\<close>, as a number 17 times the high nibble of \<open>v\<close>), it
  keeps the channel values 0 and 255, and it is idempotent: quantizing a quantized buffer
  gives the same buffer.
\<close>

theorem quantization_channels_idempotent:
  "channels (quantize d) = map quantize8 (channels d)
   \<and> unat (quantize8 v) = unat v div 16 * 17
   \<and> quantize8 0 = 0 \<and> quantize8 255 = 255
   \<and> pixels (getImageData4Bit img) = map quantize (pixels img)
   \<and> getImageData4Bit (getImageData4Bit img) = getImageData4Bit img"
proof -
  have "getImageData4Bit (getImageData4Bit img) = getImageData4Bit img"
    by (rule pixelBuffer.equality)
      (simp_all add: pixels_getImageData4Bit quantize_idem, simp_all add: getImageData4Bit_def)
  then show ?thesis
    by (simp add: channels_quantize pixels_getImageData4Bit unat_quantize8)
      (simp add: quantize8_def)
qed

section \<open>Horizontal mirror\<close>

lemma row_index:
  fixes k w y :: nat
  assumes "y * w \<le> k" and "k < y * w + w"
  shows "k div w = y" and "k mod w = k - y * w"
proof -
  define x where "x = k - y * w"
  with assms have k: "k = x + y * w" and x: "x < w" by simp_all
  from x show "k div w = y" unfolding k by simp
  from x show "k mod w = k - y * w" unfolding k by simp
qed

lemma length_flipLoopX [simp]: "length (flipLoopX data y x F) = length F"
proof (induction data y x F rule: flipLoopX.induct)
  case (1 data y x F)
  show ?case
  proof (cases "x < width data")
    case True
    with "1.IH" show ?thesis by (subst flipLoopX.simps) (simp add: Let_def)
  next
    case False
    then show ?thesis by (subst flipLoopX.simps) simp
  qed
qed

lemma nth_flipLoopX:
  "flipLoopX data y x F ! k =
     (if y * width data + x \<le> k \<and> k < y * width data + width data \<and> k < length F
      then readU32 (pixels data) ((width data - 1 - (k - y * width data)) + y * width data)
      else F ! k)"
proof (induction data y x F rule: flipLoopX.induct)
  case (1 data y x F)
  show ?case
  proof (cases "x < width data")
    case True
    let ?i = "x + y * width data"
    let ?j = "(width data - 1 - x) + y * width data"
    have "flipLoopX data y x F ! k = flipLoopX data y (x + 1) (F[?i := readU32 (pixels data) ?j]) ! k"
      using True by (subst flipLoopX.simps) (simp add: Let_def)
    also have "\<dots> = (if y * width data + (x + 1) \<le> k \<and> k < y * width data + width data
                          \<and> k < length (F[?i := readU32 (pixels data) ?j])
      then readU32 (pixels data) ((width data - 1 - (k - y * width data)) + y * width data)
      else F[?i := readU32 (pixels data) ?j] ! k)"
      using True by (intro "1.IH") simp_all
    also have "\<dots> = (if y * width data + x \<le> k \<and> k < y * width data + width data \<and> k < length F
      then readU32 (pixels data) ((width data - 1 - (k - y * width data)) + y * width data)
      else F ! k)"
      using True by (cases "k = ?i") (auto simp add: nth_list_update list_update_beyond)
    finally show ?thesis .
  next
    case False
    then show ?thesis by (subst flipLoopX.simps) auto
  qed
qed

lemma length_flipLoopY [simp]: "length (flipLoopY data y F) = length F"
proof (induction data y F rule: flipLoopY.induct)
  case (1 data y F)
  show ?case
  proof (cases "y < height data")
    case True
    with "1.IH" show ?thesis by (subst flipLoopY.simps) simp
  next
    case False
    then show ?thesis by (subst flipLoopY.simps) simp
  qed
qed

lemma nth_flipLoopY:
  "flipLoopY data y F ! k =
     (if y * width data \<le> k \<and> k < height data * width data \<and> k < length F
      then readU32 (pixels data) ((width data - 1 - k mod width data) + (k div width data) * width data)
      else F ! k)"
proof (induction data y F rule: flipLoopY.induct)
  case (1 data y F)
  show ?case
  proof (cases "y < height data")
    case True
    have le: "y * width data + width data \<le> height data * width data"
    proof -
      from True have "Suc y \<le> height data" by simp
      then have "Suc y * width data \<le> height data * width data" by (rule mult_le_mono1)
      then show ?thesis by simp
    qed
    have "flipLoopY data y F ! k = flipLoopY data (y + 1) (flipLoopX data y 0 F) ! k"
      using True by (subst flipLoopY.simps) simp
    also have "\<dots> = (if (y + 1) * width data \<le> k \<and> k < height data * width data
                          \<and> k < length (flipLoopX data y 0 F)
      then readU32 (pixels data) ((width data - 1 - k mod width data) + (k div width data) * width data)
      else flipLoopX data y 0 F ! k)"
      using True by (intro "1.IH")
    also have "\<dots> = (if y * width data \<le> k \<and> k < height data * width data \<and> k < length F
      then readU32 (pixels data) ((width data - 1 - k mod width data) + (k div width data) * width data)
      else F ! k)"
    proof (cases "y * width data \<le> k \<and> k < y * width data + width data")
      case True
      then have "k div width data = y" "k mod width data = k - y * width data"
        using row_index [of y "width data" k] by simp_all
      with True le show ?thesis by (simp add: nth_flipLoopX)
    next
      case False
      then show ?thesis by (auto simp add: nth_flipLoopX)
    qed
    finally show ?thesis .
  next
    case False
    then have "height data \<le> y" by simp
    then have "height data * width data \<le> y * width data" by (rule mult_le_mono1)
    then have "\<not> (y * width data \<le> k \<and> k < height data * width data)" by linarith
    with False show ?thesis by (subst flipLoopY.simps) auto
  qed
qed

lemma nth_flipped:
  fixes data :: pixelBuffer
  assumes len: "length (pixels data) = width data * height data"
    and x: "x < width data" and y: "y < height data"
  shows "flipLoopY data 0 (replicate (length (pixels data)) 0) ! (x + y * width data)
      = pixels data ! ((width data - 1 - x) + y * width data)"
proof -
  let ?w = "width data"
  let ?k = "x + y * ?w"
  from y have "Suc y \<le> height data" by simp
  then have "Suc y * ?w \<le> height data * ?w" by (rule mult_le_mono1)
  then have le: "y * ?w + ?w \<le> height data * ?w" by simp
  with x have k: "?k < height data * ?w" by simp
  have "(?w - 1 - x) + y * ?w < y * ?w + ?w" using x by simp
  with le have j: "(?w - 1 - x) + y * ?w < length (pixels data)"
    unfolding len by (simp add: mult.commute)
  from x have dm: "?k div ?w = y" "?k mod ?w = x" by simp_all
  show ?thesis
    unfolding nth_flipLoopY dm using k j len by (simp add: readU32_def mult.commute)
qed

text \<open>
  C3. Of the two buffers that \<open>getImageData4BitAndFlip\<close> returns for a source image, the
  first, the original, is the quantized image \<open>getImageData4Bit(image)\<close>, pixel by pixel the
  quantized pixel of the source, and the second has the width, the height and the number
  of pixels of the source. For a source image of width \<open>w\<close> and height \<open>h\<close> (a buffer of
  \<open>w * h\<close> pixels) the second buffer is the mirror of the first:
  \<open>flipped[x + y*w] = original[(w-1-x) + y*w]\<close> for all \<open>x < w\<close> and \<open>y < h\<close>, which is the
  quantized pixel of the source at \<open>(w-1-x) + y*w\<close>.
\<close>

theorem flipped_is_mirror:
  assumes "length (pixels img) = width img * height img"
    and "x < width img" and "y < height img"
  shows "fst (getImageData4BitAndFlip img) = getImageData4Bit img
       \<and> pixels (fst (getImageData4BitAndFlip img)) = map quantize (pixels img)
       \<and> width (fst (getImageData4BitAndFlip img)) = width img
       \<and> height (fst (getImageData4BitAndFlip img)) = height img
       \<and> width (snd (getImageData4BitAndFlip img)) = width img
       \<and> height (snd (getImageData4BitAndFlip img)) = height img
       \<and> length (pixels (snd (getImageData4BitAndFlip img))) = length (pixels img)
       \<and> pixels (snd (getImageData4BitAndFlip img)) ! (x + y * width img)
           = pixels (fst (getImageData4BitAndFlip img)) ! ((width img - 1 - x) + y * width img)
       \<and> pixels (snd (getImageData4BitAndFlip img)) ! (x + y * width img)
           = quantize (pixels img ! ((width img - 1 - x) + y * width img))"
proof -
  let ?data = "getImageData4Bit img"
  have w: "width ?data = width img" and h: "height ?data = height img"
    by (simp_all add: getImageData4Bit_def)
  have f: "fst (getImageData4BitAndFlip img) = ?data"
    by (simp add: getImageData4BitAndFlip_def Let_def)
  have d: "width (snd (getImageData4BitAndFlip img)) = width img"
    "height (snd (getImageData4BitAndFlip img)) = height img"
    "length (pixels (snd (getImageData4BitAndFlip img))) = length (pixels img)"
    by (simp_all add: getImageData4BitAndFlip_def Let_def w h pixels_getImageData4Bit)
  have "length (pixels ?data) = width ?data * height ?data"
    using assms(1) by (simp add: pixels_getImageData4Bit w h)
  moreover have "x < width ?data" and "y < height ?data"
    using assms(2,3) by (simp_all add: w h)
  ultimately have
    "flipLoopY ?data 0 (replicate (length (pixels ?data)) 0) ! (x + y * width ?data)
       = pixels ?data ! ((width ?data - 1 - x) + y * width ?data)"
    by (rule nth_flipped)
  then have m: "pixels (snd (getImageData4BitAndFlip img)) ! (x + y * width img)
       = pixels ?data ! ((width img - 1 - x) + y * width img)"
    by (simp add: getImageData4BitAndFlip_def Let_def w h)
  have "(width img - 1 - x) + y * width img < width img + y * width img"
    using assms(2) by simp
  also have "\<dots> = Suc y * width img" by simp
  also have "\<dots> \<le> height img * width img"
    using assms(3) by (intro mult_le_mono1) simp
  finally have "(width img - 1 - x) + y * width img < length (pixels img)"
    using assms(1) by (simp add: mult.commute)
  then have "pixels ?data ! ((width img - 1 - x) + y * width img)
      = quantize (pixels img ! ((width img - 1 - x) + y * width img))"
    by (simp add: pixels_getImageData4Bit)
  with m f d w h show ?thesis
    by (simp add: pixels_getImageData4Bit)
qed

theorem flipped_is_mirror_witness:
  "length (pixels \<lparr>pixels = [0x12345678, 0xFF00FF00], width = 2, height = 1\<rparr>)
     = width \<lparr>pixels = [0x12345678, 0xFF00FF00 :: u32], width = 2, height = 1\<rparr>
       * height \<lparr>pixels = [0x12345678, 0xFF00FF00 :: u32], width = 2, height = 1\<rparr>
   \<and> (0 :: nat) < width \<lparr>pixels = [0x12345678, 0xFF00FF00 :: u32], width = 2, height = 1\<rparr>
   \<and> (0 :: nat) < height \<lparr>pixels = [0x12345678, 0xFF00FF00 :: u32], width = 2, height = 1\<rparr>
   \<and> fst (getImageData4BitAndFlip \<lparr>pixels = [0x12345678, 0xFF00FF00], width = 2, height = 1\<rparr>)
       = \<lparr>pixels = [0x11335577, 0xFF00FF00], width = 2, height = 1\<rparr>
   \<and> snd (getImageData4BitAndFlip \<lparr>pixels = [0x12345678, 0xFF00FF00], width = 2, height = 1\<rparr>)
       = \<lparr>pixels = [0xFF00FF00, 0x11335577], width = 2, height = 1\<rparr>
   \<and> pixels (snd (getImageData4BitAndFlip
          \<lparr>pixels = [0x12345678, 0xFF00FF00], width = 2, height = 1\<rparr>)) ! 0
     = pixels (fst (getImageData4BitAndFlip
          \<lparr>pixels = [0x12345678, 0xFF00FF00], width = 2, height = 1\<rparr>)) ! 1"
proof -
  have a: "fst (getImageData4BitAndFlip
          \<lparr>pixels = [0x12345678, 0xFF00FF00], width = 2, height = 1\<rparr>)
       = \<lparr>pixels = [0x11335577, 0xFF00FF00], width = 2, height = 1\<rparr>"
    by code_simp
  have b: "snd (getImageData4BitAndFlip
          \<lparr>pixels = [0x12345678, 0xFF00FF00], width = 2, height = 1\<rparr>)
       = \<lparr>pixels = [0xFF00FF00, 0x11335577], width = 2, height = 1\<rparr>"
    by code_simp
  have c: "getImageData4Bit \<lparr>pixels = [0x12345678, 0xFF00FF00], width = 2, height = 1\<rparr>
       = \<lparr>pixels = [0x11335577, 0xFF00FF00], width = 2, height = 1\<rparr>"
    by code_simp
  show ?thesis
    using a b c flipped_is_mirror
      [of "\<lparr>pixels = [0x12345678, 0xFF00FF00], width = 2, height = 1\<rparr>" 0 0]
    by simp
qed

section \<open>Hex colors\<close>

lemma digit_not_special:
  assumes "digitValue c = Some v"
  shows "\<not> isStrWhiteSpaceChar c" and "c \<noteq> 0x2D" and "c \<noteq> 0x2B"
proof -
  from assms have "0x30 \<le> c \<and> c \<le> 0x7A"
    by (auto simp add: digitValue_def word_le_nat_alt split: if_splits)
  then have r: "0x30 \<le> unat c \<and> unat c \<le> 0x7A"
    by (simp add: word_le_nat_alt)
  show "\<not> isStrWhiteSpaceChar c"
  proof
    assume "isStrWhiteSpaceChar c"
    then have "unat c < 0x30 \<or> 0x7A < unat c"
      unfolding isStrWhiteSpaceChar_def by (auto simp add: word_le_nat_alt)
    with r show False by simp
  qed
  from r show "c \<noteq> 0x2D" and "c \<noteq> 0x2B" by auto
qed

lemma parseInt16_digit:
  assumes "digitValue c = Some v" and "v < 16"
  shows "parseInt16 [c] = Fin (of_nat v)"
  using assms digit_not_special [OF assms(1)]
  by (simp add: parseInt16_def isRadixDigit_def ustr_def)

lemma parseInt16_two_digits:
  assumes "digitValue h = Some hv" and "hv < 16" and "digitValue l = Some lv" and "lv < 16"
    and "h \<noteq> 0x30"
  shows "parseInt16 [h, l] = Fin (of_nat (16 * hv + lv))"
  using assms digit_not_special [OF assms(1)]
  by (simp add: parseInt16_def isRadixDigit_def ustr_def)

lemma digitValue_zero: "digitValue 0x30 = Some 0"
  by (simp add: digitValue_def)

lemma parseHex_two_digits:
  assumes "digitValue h = Some hv" and "hv < 16" and "digitValue l = Some lv" and "lv < 16"
  shows "parseHex [h, l] = Fin (of_nat (16 * hv + lv) / 255)"
proof (cases "h = 0x30")
  case False
  with assms show ?thesis
    by (simp add: parseHex_def parseInt16_two_digits)
next
  case True
  with assms(1) have hv: "hv = 0" by (simp add: digitValue_zero)
  show ?thesis
  proof (cases "l = 0x30")
    case False
    with True hv assms show ?thesis
      by (simp add: parseHex_def parseInt16_digit)
  next
    case l: True
    with assms(3) have "lv = 0" by (simp add: digitValue_zero)
    with True l hv show ?thesis by (simp add: parseHex_def)
  qed
qed

text \<open>
  C9, as the code has it. The divisor is chosen from the length of the argument before the
  leading zeros are removed, so every two-digit form \<open>hl\<close> is the gray level
  \<open>(16 * h + l) / 255\<close> with \<open>a = 1\<close>; \<open>parseHexColor("08")\<close> is \<open>8/255\<close>.
\<close>

theorem parseHexColor_two_digits:
  assumes "digitValue h = Some hv" and "hv < 16" and "digitValue l = Some lv" and "lv < 16"
  shows "parseHexColor [h, l] =
     Inr \<lparr>colorR = Fin (of_nat (16 * hv + lv) / 255), colorG = Fin (of_nat (16 * hv + lv) / 255),
          colorB = Fin (of_nat (16 * hv + lv) / 255), colorA = Fin 1\<rparr>"
  using parseHex_two_digits [OF assms] by (simp add: parseHexColor_def)

theorem parseHexColor_two_digits_witness:
  "digitValue 0x30 = Some 0 \<and> (0 :: nat) < 16 \<and> digitValue 0x38 = Some 8 \<and> (8 :: nat) < 16
   \<and> parseHexColor (ustr ''08'') =
       Inr \<lparr>colorR = Fin (8 / 255), colorG = Fin (8 / 255), colorB = Fin (8 / 255),
            colorA = Fin 1\<rparr>"
  using parseHexColor_two_digits [of "0x30" 0 "0x38" 8]
  by (simp add: digitValue_def ustr_def)

text \<open>The value \<open>8/15\<close> of the specification is not what \<open>parseHexColor("08")\<close> returns.\<close>

theorem parseHexColor_08_not_fifteenths:
  "parseHexColor (ustr ''08'') \<noteq>
     Inr \<lparr>colorR = Fin (8 / 15), colorG = Fin (8 / 15), colorB = Fin (8 / 15), colorA = Fin 1\<rparr>"
  by (simp add: ustr_def parseHexColor_def parseHex_def parseInt16_def isStrWhiteSpaceChar_def
      isRadixDigit_def digitValue_def)


section \<open>Sprite variants\<close>

lemma length_setProp [simp]: "length (setProp h r p v) = length h"
  by (simp add: setProp_def)

lemma nth_setProp:
  "k < length h \<Longrightarrow> setProp h r p v ! k = (if k = r then AList.update p v (h ! k) else h ! k)"
  by (simp add: setProp_def nth_list_update)

lemma take_setProp [simp]: "n \<le> r \<Longrightarrow> take n (setProp h r p v) = take n h"
  by (simp add: setProp_def)

lemma newSprite_shape:
  assumes "newSprite js h l u v a = (h', l', s)"
  shows "s = length h" and "l' = l + 4" and "length h' = length h + 4"
    and "take (length h) h' = h"
  using assms unfolding newSprite_def Let_def by auto

lemma newSprite_flips:
  assumes "newSprite js h l u v a = (h', l', s)"
  shows "map_of (h' ! s) P_flippedX = Some (PRef (s + 1))"
   and "map_of (h' ! s) P_flippedY = Some (PRef (s + 2))"
   and "map_of (h' ! (s + 1)) P_flippedX = Some (PRef s)"
   and "map_of (h' ! (s + 1)) P_flippedY = Some (PRef (s + 3))"
   and "map_of (h' ! (s + 2)) P_flippedX = Some (PRef (s + 3))"
   and "map_of (h' ! (s + 2)) P_flippedY = Some (PRef s)"
   and "map_of (h' ! (s + 3)) P_flippedX = Some (PRef (s + 1))"
   and "map_of (h' ! (s + 3)) P_flippedY = Some (PRef (s + 2))"
  using assms unfolding newSprite_def Let_def
  by (auto simp add: nth_setProp nth_append objectAssign_def)

lemma newSprite_scales:
  assumes "newSprite js h l u v a = (h', l', s)"
  shows "map_of (h' ! s) P_scale = Some (PXY 1 1)"
   and "map_of (h' ! (s + 1)) P_scale = Some (PXY (- 1) 1)"
   and "map_of (h' ! (s + 2)) P_scale = Some (PXY 1 (- 1))"
   and "map_of (h' ! (s + 3)) P_scale = Some (PXY (- 1) (- 1))"
  using assms unfolding newSprite_def Let_def
  by (auto simp add: nth_setProp nth_append objectAssign_def)

lemma newSprite_tileIndex:
  assumes "newSprite js h l u v a = (h', l', s)"
  shows "map_of (h' ! s) P_tileIndex = Some (PXY (int u) (int v))"
   and "map_of (h' ! (s + 1)) P_tileIndex = Some (PXY (int u) (int v))"
   and "map_of (h' ! (s + 2)) P_tileIndex = Some (PXY (int u) (int v))"
   and "map_of (h' ! (s + 3)) P_tileIndex = Some (PXY (int u) (int v))"
  using assms unfolding newSprite_def Let_def
  by (auto simp add: nth_setProp nth_append objectAssign_def)

text \<open>
  C5 on the code. For the sprite \<open>s\<close> of any cell, \<open>s.flippedX.flippedY\<close> and
  \<open>s.flippedY.flippedX\<close> are the same object (at \<open>s + 3\<close>), but that flip-both variant was
  copied from \<open>s\<close> with the links of \<open>s\<close>: its \<open>flippedX\<close> is the flip-X variant (at
  \<open>s + 1\<close>, scale \<open>(-1, 1)\<close>) and its \<open>flippedY\<close> is the flip-Y variant (at \<open>s + 2\<close>, scale
  \<open>(1, -1)\<close>), the other way round from a closed cycle.
\<close>

theorem flip_both_variant_links:
  "(case newSprite js h l u v a of
      (h', l', s) \<Rightarrow>
        map_of (h' ! s) P_flippedX = Some (PRef (s + 1))
      \<and> map_of (h' ! s) P_flippedY = Some (PRef (s + 2))
      \<and> map_of (h' ! (s + 1)) P_flippedY = Some (PRef (s + 3))
      \<and> map_of (h' ! (s + 2)) P_flippedX = Some (PRef (s + 3))
      \<and> map_of (h' ! (s + 3)) P_flippedX = Some (PRef (s + 1))
      \<and> map_of (h' ! (s + 3)) P_flippedY = Some (PRef (s + 2))
      \<and> map_of (h' ! (s + 1)) P_scale = Some (PXY (- 1) 1)
      \<and> map_of (h' ! (s + 2)) P_scale = Some (PXY 1 (- 1)))"
proof -
  obtain h' l' s where n: "newSprite js h l u v a = (h', l', s)"
    by (cases "newSprite js h l u v a") auto
  show ?thesis
    unfolding n using newSprite_flips [OF n] newSprite_scales [OF n] by simp
qed

section \<open>The grid of a sheet\<close>

lemma variantsAt_newSprite:
  assumes "newSprite js h l u v a = (h', l', s)"
  shows "variantsAt h' s u v"
proof -
  have "k < 4 \<Longrightarrow> k = 0 \<or> k = 1 \<or> k = 2 \<or> k = 3" for k :: nat by arith
  then have "\<forall>k < 4. map_of (h' ! (s + k)) P_tileIndex = Some (PXY (int u) (int v))"
    using newSprite_tileIndex [OF assms] by fastforce
  then show ?thesis
    unfolding variantsAt_def
    using newSprite_shape [OF assms] newSprite_flips [OF assms] newSprite_scales [OF assms]
    by simp
qed

lemma variantsAt_extend:
  assumes "variantsAt h s u v" and "take (length h) h' = h"
  shows "variantsAt h' s u v"
proof -
  have n: "h' ! k = h ! k" if "k < length h" for k
  proof -
    have "take (length h) h' ! k = h' ! k" using that by simp
    with assms(2) show ?thesis by simp
  qed
  have "length (take (length h) h') = length h" using assms(2) by simp
  then have l: "length h \<le> length h'" by simp
  from assms(1) have s: "s + 3 < length h" by (simp add: variantsAt_def)
  then have "s < length h" "s + 1 < length h" "s + 2 < length h" by simp_all
  from this s l assms(1) show ?thesis
    unfolding variantsAt_def by (auto simp add: n)
qed

lemma take_take_store:
  assumes "take (length h) h1 = h" and "take (length h1) h2 = h1"
  shows "take (length h) h2 = h"
proof -
  have "length (take (length h) h1) = length h" using assms(1) by simp
  then have "length h \<le> length h1" by simp
  then have "take (length h) h2 = take (length h) (take (length h1) h2)" by (simp add: min_def)
  with assms show ?thesis by simp
qed

lemma newCell_inv:
  assumes "newCell js data x y (h, l, col) = (h', l', col')"
  shows "take (length h) h' = h" and "\<exists>s. col' = col @ [s] \<and> variantsAt h' s (tu js x y) (tv js x y)"
proof -
  obtain h1 l1 s where n: "newSprite js h l (tu js x y) (tv js x y) (hasAlphaAt js data x y) = (h1, l1, s)"
    by (cases "newSprite js h l (tu js x y) (tv js x y) (hasAlphaAt js data x y)") auto
  with assms have e: "h' = h1" "col' = col @ [s]"
    by (simp_all add: newCell_def tu_def tv_def)
  from newSprite_shape(4) [OF n] e show "take (length h) h' = h" by simp
  from variantsAt_newSprite [OF n] e
  show "\<exists>s. col' = col @ [s] \<and> variantsAt h' s (tu js x y) (tv js x y)" by simp
qed

lemma columnLoop_inv:
  "columnLoop js data x ys (h, l, col) = (h', l', col') \<Longrightarrow>
     take (length h) h' = h \<and> length col' = length col + length ys \<and> take (length col) col' = col
   \<and> (\<forall>k < length ys. variantsAt h' (col' ! (length col + k)) (tu js x (ys ! k)) (tv js x (ys ! k)))"
proof (induction ys arbitrary: h l col)
  case Nil
  then show ?case by simp
next
  case (Cons y ys)
  obtain h1 l1 col1 where c: "newCell js data x y (h, l, col) = (h1, l1, col1)"
    by (cases "newCell js data x y (h, l, col)") auto
  from newCell_inv [OF c] obtain s where s: "take (length h) h1 = h" "col1 = col @ [s]"
      "variantsAt h1 s (tu js x y) (tv js x y)" by auto
  from Cons.prems c have "columnLoop js data x ys (h1, l1, col1) = (h', l', col')" by simp
  from Cons.IH [OF this] have ih: "take (length h1) h' = h1"
    "length col' = length col1 + length ys" "take (length col1) col' = col1"
    "\<forall>k < length ys. variantsAt h' (col' ! (length col1 + k)) (tu js x (ys ! k)) (tv js x (ys ! k))"
    by auto
  have a: "take (length h) h' = h" using s(1) ih(1) by (rule take_take_store)
  have b: "length col' = length col + length (y # ys)" using ih(2) s(2) by simp
  have t: "take (Suc (length col)) col' = col @ [s]" using ih(3) s(2) by simp
  then have "take (length col) (take (Suc (length col)) col') = col" by simp
  then have c': "take (length col) col' = col" by (simp add: min_def)
  from t have "take (Suc (length col)) col' ! length col = s" by simp
  then have at: "col' ! length col = s" by simp
  have d: "variantsAt h' (col' ! (length col + k)) (tu js x ((y # ys) ! k)) (tv js x ((y # ys) ! k))"
    if "k < length (y # ys)" for k
  proof (cases k)
    case 0
    with at variantsAt_extend [OF s(3) ih(1)] show ?thesis by simp
  next
    case (Suc k')
    with that ih(4) s(2) show ?thesis by simp
  qed
  from a b c' d show ?case by blast
qed

lemma columnOK_extend:
  "columnOK js h rows x col \<Longrightarrow> take (length h) h' = h \<Longrightarrow> columnOK js h' rows x col"
  unfolding columnOK_def using variantsAt_extend by blast

lemma newColumn_inv:
  assumes "newColumn js data rows x (h, l, g) = (h', l', g')"
  shows "take (length h) h' = h" and "\<exists>col. g' = g @ [col] \<and> columnOK js h' rows x col"
proof -
  obtain h1 l1 col where c: "columnLoop js data x [0..<rows] (h, l, []) = (h1, l1, col)"
    by (cases "columnLoop js data x [0..<rows] (h, l, [])") auto
  with assms have e: "h' = h1" "g' = g @ [col]" by (simp_all add: newColumn_def)
  from columnLoop_inv [OF c] have i: "take (length h) h1 = h" "length col = rows"
    "\<forall>k < rows. variantsAt h1 (col ! k) (tu js x k) (tv js x k)"
    by auto
  from i(1) e show "take (length h) h' = h" by simp
  from i(2,3) e show "\<exists>col. g' = g @ [col] \<and> columnOK js h' rows x col"
    by (simp add: columnOK_def)
qed

lemma gridLoop_inv:
  "gridLoop js data rows xs (h, l, g) = (h', l', g') \<Longrightarrow>
     take (length h) h' = h \<and> length g' = length g + length xs \<and> take (length g) g' = g
   \<and> (\<forall>k < length xs. columnOK js h' rows (xs ! k) (g' ! (length g + k)))"
proof (induction xs arbitrary: h l g)
  case Nil
  then show ?case by simp
next
  case (Cons x xs)
  obtain h1 l1 g1 where c: "newColumn js data rows x (h, l, g) = (h1, l1, g1)"
    by (cases "newColumn js data rows x (h, l, g)") auto
  from newColumn_inv [OF c] obtain col where s: "take (length h) h1 = h" "g1 = g @ [col]"
      "columnOK js h1 rows x col" by auto
  from Cons.prems c have "gridLoop js data rows xs (h1, l1, g1) = (h', l', g')" by simp
  from Cons.IH [OF this] have ih: "take (length h1) h' = h1"
    "length g' = length g1 + length xs" "take (length g1) g' = g1"
    "\<forall>k < length xs. columnOK js h' rows (xs ! k) (g' ! (length g1 + k))"
    by auto
  have a: "take (length h) h' = h" using s(1) ih(1) by (rule take_take_store)
  have b: "length g' = length g + length (x # xs)" using ih(2) s(2) by simp
  have t: "take (Suc (length g)) g' = g @ [col]" using ih(3) s(2) by simp
  then have "take (length g) (take (Suc (length g)) g') = g" by simp
  then have c': "take (length g) g' = g" by (simp add: min_def)
  from t have "take (Suc (length g)) g' ! length g = col" by simp
  then have at: "g' ! length g = col" by simp
  have d: "columnOK js h' rows ((x # xs) ! k) (g' ! (length g + k))"
    if "k < length (x # xs)" for k
  proof (cases k)
    case 0
    with at columnOK_extend [OF s(3) ih(1)] show ?thesis by simp
  next
    case (Suc k')
    with that ih(4) s(2) show ?thesis by simp
  qed
  from a b c' d show ?case by blast
qed

lemma spriteGrid_variants:
  assumes "spriteGrid js data l0 = Some (h, l1, g)" and "x < length g" and "y < length (g ! x)"
  shows "variantsAt h (g ! x ! y) (tu js x y) (tv js x y)"
proof -
  from assms(1,2) obtain r c where g: "gridLoop js data r [0..<c] ([], l0, []) = (h, l1, g)"
    by (auto simp add: spriteGrid_def Let_def split: option.splits if_splits)
  from gridLoop_inv [OF g] have "length g = c"
    and "\<forall>k < c. columnOK js h r ([0..<c] ! k) (g ! k)" by auto
  with assms(2) have "columnOK js h r x (g ! x)" by simp
  with assms(3) show ?thesis by (simp add: columnOK_def)
qed

lemma sprites_setEntry [simp]: "sprites (setEntry sheet p a) = sprites sheet"
  by (simp add: setEntry_def split: option.splits)

lemma elements_setEntry_named [simp]:
  "arrayIndex p = None \<Longrightarrow> elements (setEntry sheet p a) = elements sheet"
  by (simp add: setEntry_def)

lemma named_setEntry_named [simp]:
  "arrayIndex p = None \<Longrightarrow> named (setEntry sheet p a) = AList.update p a (named sheet)"
  by (simp add: setEntry_def)

lemma refsOK_None [simp]: "refsOK h None"
  by (simp add: refsOK_def)

lemma refsOK_empty [simp]: "refsOK h (Some \<lparr>elems = [], extrapolate = e\<rparr>)"
  by (simp add: refsOK_def)

lemma sheetOK_setEntry:
  assumes "sheetOK sheet" and "arrayIndex p \<noteq> None \<Longrightarrow> refsOK (sprites sheet) (Some a)"
  shows "sheetOK (setEntry sheet p a)"
proof (cases "arrayIndex p")
  case None
  with assms(1) show ?thesis by (simp add: sheetOK_def)
next
  case (Some i)
  let ?es = "elements sheet @ replicate (Suc i - length (elements sheet)) None"
  have "set (?es[i := Some a]) \<subseteq> insert (Some a) (set ?es)"
    by (rule set_update_subset_insert)
  moreover have "set ?es \<subseteq> insert None (set (elements sheet))" by auto
  ultimately have "set (?es[i := Some a]) \<subseteq> insert (Some a) (insert None (set (elements sheet)))"
    by blast
  moreover have "refsOK (sprites sheet) (Some a)" using assms(2) Some by simp
  ultimately show ?thesis
    using assms(1) Some unfolding sheetOK_def by (auto simp add: setEntry_def)
qed

lemma refsOK_push:
  assumes "refsOK h (Some a)" and "refsOK h (Some column)"
  shows "refsOK h (Some (pushElem a (readElem column v)))"
proof -
  have "\<exists>u w. variantsAt h s u w" if "readElem column v = Some s" for s
  proof -
    from that have "v < length (elems column)" and "elems column ! v = Some s"
      by (auto simp add: readElem_def split: if_splits)
    then have "Some s \<in> set (elems column)" by (metis nth_mem)
    with assms(2) show ?thesis by (simp add: refsOK_def)
  qed
  with assms(1) show ?thesis by (auto simp add: refsOK_def pushElem_def)
qed

lemma pushCells_step:
  assumes "pushCells sheet tr anim ((x, y) # rest) = Inr sheet'"
  obtains column0 a column where
    "0 \<le> (if tr then y else x)" and "(if tr then y else x) < int (length (elements sheet))"
    and "0 \<le> (if tr then x else y)"
    and "elements sheet ! 0 = Some column0"
    and "(if tr then x else y) < int (length (elems column0))"
    and "getEntry sheet anim = Some a"
    and "elements sheet ! nat (if tr then y else x) = Some column"
    and "pushCells (setEntry sheet anim (pushElem a (readElem column (nat (if tr then x else y)))))
           tr anim rest = Inr sheet'"
  using assms
  by (auto simp add: Let_def split: if_splits option.splits)

lemma pushCells_OK:
  "sheetOK sheet \<Longrightarrow> pushCells sheet tr anim cells = Inr sheet'
   \<Longrightarrow> sheetOK sheet' \<and> sprites sheet' = sprites sheet"
proof (induction cells arbitrary: sheet)
  case Nil
  then show ?case by simp
next
  case (Cons c rest)
  obtain x y where c: "c = (x, y)" by (cases c)
  from Cons.prems(2) [unfolded c] obtain column0 a column where
    u: "0 \<le> (if tr then y else x)" "(if tr then y else x) < int (length (elements sheet))"
    and a: "getEntry sheet anim = Some a"
    and col: "elements sheet ! nat (if tr then y else x) = Some column"
    and r: "pushCells (setEntry sheet anim (pushElem a (readElem column (nat (if tr then x else y)))))
           tr anim rest = Inr sheet'"
    by (rule pushCells_step)
  let ?s = "setEntry sheet anim (pushElem a (readElem column (nat (if tr then x else y))))"
  from u have "nat (if tr then y else x) < length (elements sheet)" by simp
  then have "elements sheet ! nat (if tr then y else x) \<in> set (elements sheet)" by (rule nth_mem)
  with col Cons.prems(1) have c1: "refsOK (sprites sheet) (Some column)"
    by (simp add: sheetOK_def)
  have "refsOK (sprites sheet) (Some (pushElem a (readElem column (nat (if tr then x else y)))))"
    if "arrayIndex anim \<noteq> None"
  proof -
    from that obtain i where i: "arrayIndex anim = Some i" by blast
    with a have "i < length (elements sheet)" and "elements sheet ! i = Some a"
      by (auto simp add: getEntry_def split: if_splits)
    then have "Some a \<in> set (elements sheet)" by (metis nth_mem)
    with Cons.prems(1) have "refsOK (sprites sheet) (Some a)" by (simp add: sheetOK_def)
    from this c1 show ?thesis by (rule refsOK_push)
  qed
  with Cons.prems(1) have "sheetOK ?s" by (rule sheetOK_setEntry)
  from Cons.IH [OF this r] show ?case by simp
qed

lemma decodeAnimation_step:
  assumes "decodeAnimation sheet tr anim d = Inr sheet'"
  obtains e cells where
    "pushCells (setEntry (setEntry sheet anim \<lparr>elems = [], extrapolate = None\<rparr>) anim
        \<lparr>elems = [], extrapolate = Some e\<rparr>) tr anim cells = Inr sheet'"
    and "anim \<noteq> ustr ''length''"
  using assms
  by (auto simp add: decodeAnimation_def Let_def split: if_splits option.splits prod.splits)

lemma decodeAnimation_OK:
  assumes "sheetOK sheet" and "decodeAnimation sheet tr anim d = Inr sheet'"
  shows "sheetOK sheet' \<and> sprites sheet' = sprites sheet"
proof -
  from assms(2) obtain e cells where
    p: "pushCells (setEntry (setEntry sheet anim \<lparr>elems = [], extrapolate = None\<rparr>) anim
        \<lparr>elems = [], extrapolate = Some e\<rparr>) tr anim cells = Inr sheet'"
    by (rule decodeAnimation_step)
  have "sheetOK (setEntry sheet anim \<lparr>elems = [], extrapolate = None\<rparr>)"
    using assms(1) by (rule sheetOK_setEntry) simp
  then have "sheetOK (setEntry (setEntry sheet anim \<lparr>elems = [], extrapolate = None\<rparr>) anim
        \<lparr>elems = [], extrapolate = Some e\<rparr>)"
    by (rule sheetOK_setEntry) simp
  from pushCells_OK [OF this p] show ?thesis by simp
qed

lemma namesLoop_OK:
  "sheetOK sheet \<Longrightarrow> namesLoop sheet tr ns = Inr sheet'
   \<Longrightarrow> sheetOK sheet' \<and> sprites sheet' = sprites sheet"
proof (induction ns arbitrary: sheet)
  case Nil
  then show ?case by simp
next
  case (Cons c rest)
  obtain anim d where c: "c = (anim, d)" by (cases c)
  from Cons.prems(2) obtain sheet1 where d: "decodeAnimation sheet tr anim d = Inr sheet1"
    and r: "namesLoop sheet1 tr rest = Inr sheet'"
    by (auto simp add: c split: sum.splits)
  from decodeAnimation_OK [OF Cons.prems(1) d] Cons.IH [OF _ r] show ?case by simp
qed

lemma loadSpritesheet_grid:
  assumes "loadSpritesheet js img l0 = Some (Inr (sheet, l1))"
  obtains h g where
    "spriteGrid js (fst (getImageData4BitAndFlip img)) l0 = Some (h, l1, g)"
    and "(case names js of
            None \<Rightarrow> Inr \<lparr>sprites = h, elements = map gridColumn g, named = []\<rparr>
          | Some ns \<Rightarrow> namesLoop \<lparr>sprites = h, elements = map gridColumn g, named = []\<rparr>
                        (transpose js) ns) = Inr sheet"
  using assms
  by (auto simp add: loadSpritesheet_def Let_def split: option.splits sum.splits prod.splits)

lemma sheetOK_grid:
  assumes "spriteGrid js data l0 = Some (h, l1, g)"
  shows "sheetOK \<lparr>sprites = h, elements = map gridColumn g, named = []\<rparr>"
proof -
  have "\<exists>u v. variantsAt h s u v" if "x < length g" and "Some s \<in> set (map Some (g ! x))" for x s
  proof -
    from that(2) have "s \<in> set (g ! x)" by auto
    then obtain y where "y < length (g ! x)" and "g ! x ! y = s" by (auto simp add: in_set_conv_nth)
    with spriteGrid_variants [OF assms that(1), of y] show ?thesis by blast
  qed
  then have "refsOK h (gridColumn (g ! x))" if "x < length g" for x
    using that by (simp add: refsOK_def gridColumn_def)
  then show ?thesis
    by (auto simp add: sheetOK_def in_set_conv_nth)
qed

lemma loadSpritesheet_OK:
  assumes "loadSpritesheet js img l0 = Some (Inr (sheet, l1))"
  shows "sheetOK sheet"
proof -
  from assms obtain h g where
    g: "spriteGrid js (fst (getImageData4BitAndFlip img)) l0 = Some (h, l1, g)"
    and n: "(case names js of
            None \<Rightarrow> Inr \<lparr>sprites = h, elements = map gridColumn g, named = []\<rparr>
          | Some ns \<Rightarrow> namesLoop \<lparr>sprites = h, elements = map gridColumn g, named = []\<rparr>
                        (transpose js) ns) = Inr sheet"
    by (rule loadSpritesheet_grid)
  have ok: "sheetOK \<lparr>sprites = h, elements = map gridColumn g, named = []\<rparr>"
    using g by (rule sheetOK_grid)
  show ?thesis
  proof (cases "names js")
    case None
    with n ok show ?thesis by simp
  next
    case (Some ns)
    with n have "namesLoop \<lparr>sprites = h, elements = map gridColumn g, named = []\<rparr>
                        (transpose js) ns = Inr sheet" by simp
    from namesLoop_OK [OF ok this] show ?thesis by simp
  qed
qed

lemma loadSpritesheet_variants:
  assumes "loadSpritesheet js img l0 = Some (Inr (sheet, l1))"
    and "x < length (elements sheet)" and "elements sheet ! x = Some column"
    and "readElem column y = Some s"
  shows "\<exists>u v. variantsAt (sprites sheet) s u v"
proof -
  from assms(2) have "elements sheet ! x \<in> set (elements sheet)" by (rule nth_mem)
  with loadSpritesheet_OK [OF assms(1)] assms(3) have r: "refsOK (sprites sheet) (Some column)"
    by (simp add: sheetOK_def)
  from assms(4) have "y < length (elems column)" and "elems column ! y = Some s"
    by (auto simp add: readElem_def split: if_splits)
  then have "Some s \<in> set (elems column)" by (metis nth_mem)
  with r show ?thesis by (simp add: refsOK_def)
qed

section \<open>GID decoding\<close>

lemma flip_x_bit: "(gid AND 0x80000000 \<noteq> 0) = bit gid 31" for gid :: u32
  using bit_iff_and_push_bit_not_eq_0 [of gid 31] by simp

lemma flip_y_bit: "(gid AND 0x40000000 \<noteq> 0) = bit gid 30" for gid :: u32
  using bit_iff_and_push_bit_not_eq_0 [of gid 30] by simp

lemma low_28_bits: "gid AND 0x0FFFFFFF = take_bit 28 gid" for gid :: u32
  by (simp add: take_bit_eq_mask mask_eq_exp_minus_1)

lemma tmxIndex_nat:
  fixes w :: u32
  assumes "w \<noteq> 0"
  shows "uint w - 1 \<ge> 0" and "nat (uint w - 1) = unat w - 1"
proof -
  from assms have "uint w \<noteq> 0" by (simp add: uint_0_iff)
  moreover have "0 \<le> uint w" by simp
  ultimately show "uint w - 1 \<ge> 0" by linarith
  have "nat (uint w - 1) = nat (uint w) - nat 1"
    by (rule nat_diff_distrib') simp_all
  then show "nat (uint w - 1) = unat w - 1" by simp
qed

lemma variant_offset:
  "s + (if fx then 1 else 0) + (if fy then 2 else 0)
     = (if fx then (if fy then s + 3 else s + 1) else (if fy then s + 2 else s))" for s :: nat
  by simp

lemma pushCells_elements:
  "arrayIndex anim = None \<Longrightarrow> pushCells sheet tr anim cells = Inr sheet'
   \<Longrightarrow> elements sheet' = elements sheet"
proof (induction cells arbitrary: sheet)
  case Nil
  then show ?case by simp
next
  case (Cons c rest)
  obtain x y where c: "c = (x, y)" by (cases c)
  from Cons.prems(2) [unfolded c] obtain a column where
    r: "pushCells (setEntry sheet anim (pushElem a (readElem column (nat (if tr then x else y)))))
           tr anim rest = Inr sheet'"
    by (rule pushCells_step)
  from Cons.IH [OF Cons.prems(1) r] Cons.prems(1) show ?case by simp
qed

lemma decodeAnimation_elements:
  assumes "arrayIndex anim = None" and "decodeAnimation sheet tr anim d = Inr sheet'"
  shows "elements sheet' = elements sheet"
proof -
  from assms(2) obtain e cells where
    p: "pushCells (setEntry (setEntry sheet anim \<lparr>elems = [], extrapolate = None\<rparr>) anim
        \<lparr>elems = [], extrapolate = Some e\<rparr>) tr anim cells = Inr sheet'"
    by (rule decodeAnimation_step)
  from pushCells_elements [OF assms(1) p] assms(1) show ?thesis by simp
qed

lemma namesLoop_elements:
  "list_all (\<lambda>(n, d). plainName n) ns \<Longrightarrow> namesLoop sheet tr ns = Inr sheet'
   \<Longrightarrow> elements sheet' = elements sheet"
proof (induction ns arbitrary: sheet)
  case Nil
  then show ?case by simp
next
  case (Cons c rest)
  obtain anim d where c: "c = (anim, d)" by (cases c)
  from Cons.prems(2) obtain sheet1 where d: "decodeAnimation sheet tr anim d = Inr sheet1"
    and r: "namesLoop sheet1 tr rest = Inr sheet'"
    by (auto simp add: c split: sum.splits)
  from Cons.prems(1) have "arrayIndex anim = None" and "list_all (\<lambda>(n, d). plainName n) rest"
    by (simp_all add: c plainName_def)
  from decodeAnimation_elements [OF this(1) d] Cons.IH [OF this(2) r] show ?case by simp
qed

lemma loadSpritesheet_plain:
  assumes "loadSpritesheet js img l0 = Some (Inr (sheet, l1))" and "plainNames js"
    and "x < length (elements sheet)" and "elements sheet ! x = Some column"
    and "y < length (elems column)"
  shows "\<exists>s. elems column ! y = Some s \<and> variantsAt (sprites sheet) s (tu js x y) (tv js x y)"
proof -
  from assms(1) obtain h g where
    g: "spriteGrid js (fst (getImageData4BitAndFlip img)) l0 = Some (h, l1, g)"
    and n: "(case names js of
            None \<Rightarrow> Inr \<lparr>sprites = h, elements = map gridColumn g, named = []\<rparr>
          | Some ns \<Rightarrow> namesLoop \<lparr>sprites = h, elements = map gridColumn g, named = []\<rparr>
                        (transpose js) ns) = Inr sheet"
    by (rule loadSpritesheet_grid)
  let ?s0 = "\<lparr>sprites = h, elements = map gridColumn g, named = []\<rparr>"
  have e: "elements sheet = map gridColumn g \<and> sprites sheet = h"
  proof (cases "names js")
    case None
    with n show ?thesis by auto
  next
    case (Some ns)
    with n have l: "namesLoop ?s0 (transpose js) ns = Inr sheet" by simp
    from assms(2) Some have "list_all (\<lambda>(n, d). plainName n) ns" by (simp add: plainNames_def)
    from namesLoop_elements [OF this l] namesLoop_OK [OF sheetOK_grid [OF g] l]
    show ?thesis by simp
  qed
  with assms(3) have xl: "x < length g" by simp
  with e assms(4) have c: "column = \<lparr>elems = map Some (g ! x), extrapolate = None\<rparr>"
    by (simp add: gridColumn_def)
  with assms(5) have yl: "y < length (g ! x)" by simp
  from spriteGrid_variants [OF g xl yl] e c yl show ?thesis by simp
qed

lemma tileSprite_empty:
  assumes "take_bit 28 gid = 0"
  shows "tileSprite sheet columns gid = Inr None"
  using assms by (simp add: tileSprite_def low_28_bits)

lemma tileSprite_variant:
  fixes gid :: u32
  assumes v: "variantsAt (sprites sheet) s u v"
    and nz: "take_bit 28 gid \<noteq> 0" and c: "0 < columns"
    and x: "x = (unat (take_bit 28 gid) - 1) mod columns"
    and y: "y = (unat (take_bit 28 gid) - 1) div columns"
    and xl: "x < length (elements sheet)" and col: "elements sheet ! x = Some column"
    and s: "readElem column y = Some s"
  shows "tileSprite sheet columns gid
           = Inr (Some (s + (if bit gid 31 then 1 else 0) + (if bit gid 30 then 2 else 0)))"
proof -
  from v have l: "map_of (sprites sheet ! s) P_flippedX = Some (PRef (s + 1))"
    "map_of (sprites sheet ! s) P_flippedY = Some (PRef (s + 2))"
    "map_of (sprites sheet ! (s + 1)) P_flippedY = Some (PRef (s + 3))"
    unfolding variantsAt_def by blast+
  have i: "nat (uint (take_bit 28 gid) - 1) mod columns = x"
    "nat (uint (take_bit 28 gid) - 1) div columns = y"
    unfolding x y tmxIndex_nat(2) [OF nz] by simp_all
  have "tileSprite sheet columns gid =
      bindE (if bit gid 31 then readRef (sprites sheet) P_flippedX (Some s) else Inr (Some s))
        (\<lambda>sprite. if bit gid 30 then readRef (sprites sheet) P_flippedY sprite else Inr sprite)"
    unfolding tileSprite_def low_28_bits flip_x_bit flip_y_bit Let_def i
    using c xl col s tmxIndex_nat(1) [OF nz] by simp
  also have "\<dots> = Inr (Some (if bit gid 31 then (if bit gid 30 then s + 3 else s + 1)
                               else (if bit gid 30 then s + 2 else s)))"
    using l by (simp add: bindE_def readRef_def)
  finally show ?thesis unfolding variant_offset .
qed

text \<open>
  C2. On a sheet that \<open>loadSpritesheet\<close> has built, a GID whose low 28 bits are 0 (in
  particular the GID 0) gives the empty cell. Otherwise the low 28 bits minus 1 are an
  index \<open>i\<close>, and for \<open>column = i mod columns\<close> and \<open>row = i div columns\<close> the cell gets a
  variant of the sprite \<open>s\<close> that the sheet holds at \<open>spritesheet[column][row]\<close>: the same
  tile, with the scale \<open>x = -1\<close> exactly when bit 31 is set and the scale \<open>y = -1\<close> exactly
  when bit 30 is set (\<open>s\<close> itself has the scale \<open>(1, 1)\<close>, and its variants are stored at
  \<open>s + 1\<close>, \<open>s + 2\<close> and \<open>s + 3\<close>). This holds whatever the name table of the sheet
  is, as long as it has no entry of the name \<open>__proto__\<close>, also when an animation has
  taken the place of the column.
  When no name of the table is an array index, \<open>length\<close> or \<open>__proto__\<close>, the sprite at
  \<open>spritesheet[x][y]\<close> is the one of the tile \<open>(x, y)\<close> of the image (\<open>(y, x)\<close> for a
  transposed sheet).
\<close>

theorem gid_decoding:
  fixes gid :: u32
  assumes "loadSpritesheet js img l0 = Some (Inr (sheet, l1))" and "protoFree js"
  shows "(take_bit 28 gid = 0 \<longrightarrow> tileSprite sheet columns gid = Inr None)
    \<and> (take_bit 28 gid \<noteq> 0 \<and> 0 < columns
        \<and> (unat (take_bit 28 gid) - 1) mod columns < length (elements sheet)
        \<and> elements sheet ! ((unat (take_bit 28 gid) - 1) mod columns) = Some column
        \<and> readElem column ((unat (take_bit 28 gid) - 1) div columns) = Some s
       \<longrightarrow> (\<exists>r. tileSprite sheet columns gid = Inr (Some r)
             \<and> r = s + (if bit gid 31 then 1 else 0) + (if bit gid 30 then 2 else 0)
             \<and> map_of (sprites sheet ! r) P_scale
                 = Some (PXY (if bit gid 31 then - 1 else 1) (if bit gid 30 then - 1 else 1))
             \<and> map_of (sprites sheet ! s) P_scale = Some (PXY 1 1)
             \<and> map_of (sprites sheet ! r) P_tileIndex = map_of (sprites sheet ! s) P_tileIndex))
    \<and> (plainNames js \<and> x < length (elements sheet) \<and> elements sheet ! x = Some column
        \<and> y < length (elems column)
       \<longrightarrow> (\<exists>s. readElem column y = Some s
             \<and> map_of (sprites sheet ! s) P_tileIndex
                 = Some (PXY (int (tu js x y)) (int (tv js x y)))))"
proof -
  define cx where "cx = (unat (take_bit 28 gid) - 1) mod columns"
  define cy where "cy = (unat (take_bit 28 gid) - 1) div columns"
  define r where "r = s + (if bit gid 31 then 1 else 0) + (if bit gid 30 then 2 else 0)"
  have e: "tileSprite sheet columns gid = Inr None" if "take_bit 28 gid = 0"
    using that by (rule tileSprite_empty)
  have f: "tileSprite sheet columns gid = Inr (Some r)
      \<and> map_of (sprites sheet ! r) P_scale
          = Some (PXY (if bit gid 31 then - 1 else 1) (if bit gid 30 then - 1 else 1))
      \<and> map_of (sprites sheet ! s) P_scale = Some (PXY 1 1)
      \<and> map_of (sprites sheet ! r) P_tileIndex = map_of (sprites sheet ! s) P_tileIndex"
    if nz: "take_bit 28 gid \<noteq> 0" and c: "0 < columns" and xl: "cx < length (elements sheet)"
      and col: "elements sheet ! cx = Some column" and yl: "readElem column cy = Some s"
  proof -
    from loadSpritesheet_variants [OF assms(1) xl col yl] obtain u v where
      v: "variantsAt (sprites sheet) s u v" by blast
    have t: "tileSprite sheet columns gid = Inr (Some r)"
      unfolding r_def using v nz c cx_def cy_def xl col yl by (rule tileSprite_variant)
    from v have sc: "map_of (sprites sheet ! s) P_scale = Some (PXY 1 1)"
      "map_of (sprites sheet ! (s + 1)) P_scale = Some (PXY (- 1) 1)"
      "map_of (sprites sheet ! (s + 2)) P_scale = Some (PXY 1 (- 1))"
      "map_of (sprites sheet ! (s + 3)) P_scale = Some (PXY (- 1) (- 1))"
      unfolding variantsAt_def by blast+
    from v have a: "\<forall>k < 4. map_of (sprites sheet ! (s + k)) P_tileIndex
       = Some (PXY (int u) (int v))"
      unfolding variantsAt_def by blast
    have ti: "map_of (sprites sheet ! (s + k)) P_tileIndex
        = map_of (sprites sheet ! s) P_tileIndex" if "k < 4" for k
      using a [rule_format, OF that] a [rule_format, of 0] by simp
    have r: "r = (if bit gid 31 then (if bit gid 30 then s + 3 else s + 1)
                  else (if bit gid 30 then s + 2 else s))"
      unfolding r_def by (rule variant_offset)
    have "map_of (sprites sheet ! r) P_scale
          = Some (PXY (if bit gid 31 then - 1 else 1) (if bit gid 30 then - 1 else 1))"
      unfolding r using sc by simp
    moreover have "map_of (sprites sheet ! r) P_tileIndex = map_of (sprites sheet ! s) P_tileIndex"
      unfolding r using ti [of 1] ti [of 2] ti [of 3] by simp
    ultimately show ?thesis using t sc(1) by simp
  qed
  have g: "\<exists>s. readElem column y = Some s
             \<and> map_of (sprites sheet ! s) P_tileIndex
                 = Some (PXY (int (tu js x y)) (int (tv js x y)))"
    if "plainNames js" and "x < length (elements sheet)" and "elements sheet ! x = Some column"
      and yl: "y < length (elems column)"
  proof -
    from loadSpritesheet_plain [OF assms(1) that] obtain s' where
      s': "elems column ! y = Some s'"
      "variantsAt (sprites sheet) s' (tu js x y) (tv js x y)" by blast
    from s'(2) have "\<forall>k < 4. map_of (sprites sheet ! (s' + k)) P_tileIndex
       = Some (PXY (int (tu js x y)) (int (tv js x y)))"
      unfolding variantsAt_def by blast
    from this [rule_format, of 0] s'(1) yl show ?thesis by (simp add: readElem_def)
  qed
  from e f g show ?thesis
    unfolding r_def cx_def cy_def by blast
qed

lemma exampleSheet_loaded:
  "loadSpritesheet exampleJSON exampleImage 100 = Some (Inr (exampleSheet, 116))"
  by code_simp

lemma exampleSheet_elements:
  "elements exampleSheet
     = [Some \<lparr>elems = [Some 0], extrapolate = None\<rparr>, Some \<lparr>elems = [Some 4], extrapolate = None\<rparr>,
        Some \<lparr>elems = [Some 8], extrapolate = None\<rparr>, Some \<lparr>elems = [Some 12], extrapolate = None\<rparr>]"
  by code_simp

lemma exampleSheet_named: "named exampleSheet = []"
  by code_simp

lemma exampleSheet_tiles:
  "map (\<lambda>r. map_of (sprites exampleSheet ! r) P_tileIndex) [0, 1, 4, 8]
     = [Some (PXY 0 0), Some (PXY 0 0), Some (PXY 1 0), Some (PXY 2 0)]"
  by code_simp

lemma exampleSheet_scale: "map_of (sprites exampleSheet ! 1) P_scale = Some (PXY (- 1) 1)"
  by code_simp

text \<open>
  An animation whose name is an array index takes the place of a column. With the name
  table \<open>{"1": {x: 0, y: 0}}\<close> the column 1 of the example sheet is the animation, and
  the GID 2 of a map with 4 columns gets the sprite of the tile \<open>(0, 0)\<close>; with
  \<open>{"1": {start: {x: 1, y: 0}}}\<close> the animation reads its own, still empty array and the
  cell of the GID 2 is \<open>undefined\<close>; with \<open>{"0": {x: 1, y: 0}}\<close> the bounds check reads
  the length of the empty animation and throws.
\<close>

lemma index_name_replaces_column:
  "(case loadSpritesheet (exampleJSON\<lparr>names := Some [(ustr ''1'', cellEntry 0 0)]\<rparr>)
           exampleImage 100 of
      Some (Inr (sheet, l)) \<Rightarrow>
        elements sheet ! 1 = Some \<lparr>elems = [Some 0], extrapolate = Some (ustr ''clamp'')\<rparr>
        \<and> tileSprite sheet 4 2 = Inr (Some 0)
        \<and> map_of (sprites sheet ! 0) P_tileIndex = Some (PXY 0 0)
    | _ \<Rightarrow> False)
   \<and> (case loadSpritesheet
           (exampleJSON\<lparr>names := Some [(ustr ''1'',
              \<lparr>animX = None, animY = None, animStart = Some \<lparr>cellX = Some 1, cellY = Some 0\<rparr>,
               animEnd = None, animExtrapolate = None\<rparr>)]\<rparr>)
           exampleImage 100 of
      Some (Inr (sheet, l)) \<Rightarrow>
        elements sheet ! 1 = Some \<lparr>elems = [None], extrapolate = Some (ustr ''loop'')\<rparr>
        \<and> tileSprite sheet 4 2 = Inr None
    | _ \<Rightarrow> False)
   \<and> loadSpritesheet (exampleJSON\<lparr>names := Some [(ustr ''0'', cellEntry 1 0)]\<rparr>) exampleImage 100
       = Some (Inl (AnimationOutOfBounds 1 0 (ustr ''0'')))
   \<and> loadSpritesheet (exampleJSON\<lparr>names := Some [(ustr ''length'', cellEntry 1 0)]\<rparr>)
         exampleImage 100
       = Some (Inl TypeError)"
  by code_simp

theorem gid_decoding_witness:
  "loadSpritesheet exampleJSON exampleImage 100 = Some (Inr (exampleSheet, 116))
   \<and> take_bit 28 (0x80000001 :: u32) \<noteq> 0 \<and> (0 :: nat) < 4
   \<and> (unat (take_bit 28 (0x80000001 :: u32)) - 1) mod 4 < length (elements exampleSheet)
   \<and> elements exampleSheet ! ((unat (take_bit 28 (0x80000001 :: u32)) - 1) mod 4)
       = Some \<lparr>elems = [Some 0], extrapolate = None\<rparr>
   \<and> readElem \<lparr>elems = [Some 0], extrapolate = None\<rparr>
         ((unat (take_bit 28 (0x80000001 :: u32)) - 1) div 4) = Some 0
   \<and> tileSprite exampleSheet 4 0x80000001 = Inr (Some 1)
   \<and> map_of (sprites exampleSheet ! 1) P_scale = Some (PXY (- 1) 1)
   \<and> map_of (sprites exampleSheet ! 1) P_tileIndex = Some (PXY 0 0)
   \<and> take_bit 28 (0 :: u32) = 0
   \<and> tileSprite exampleSheet 4 0 = Inr None
   \<and> plainNames exampleJSON \<and> protoFree exampleJSON
   \<and> map_of (sprites exampleSheet ! 0) P_tileIndex = Some (PXY 0 0)"
proof -
  have a: "loadSpritesheet exampleJSON exampleImage 100 = Some (Inr (exampleSheet, 116))"
    by (rule exampleSheet_loaded)
  have b: "bit (0x80000001 :: u32) 31" "\<not> bit (0x80000001 :: u32) 30"
    "take_bit 28 (0x80000001 :: u32) = 1"
    by (simp_all add: bit_numeral_word_iff take_bit_numeral_bit1)
  have p: "plainNames exampleJSON"
    by (simp add: plainNames_def exampleJSON_def)
  have q: "protoFree exampleJSON"
    by (simp add: protoFree_def exampleJSON_def)
  show ?thesis
    using a p q exampleSheet_tiles exampleSheet_scale
      gid_decoding [OF a q, where gid = "0x80000001" and columns = 4
        and column = "\<lparr>elems = [Some 0], extrapolate = None\<rparr>" and s = 0 and x = 0 and y = 0]
      gid_decoding [OF a q, where gid = 0 and columns = 4]
    by (simp add: exampleSheet_elements b readElem_def)
qed

section \<open>Animation ranges\<close>

lemma inGrid_setEntry [simp]:
  "arrayIndex n = None \<Longrightarrow> inGrid (setEntry sheet n a) tr x y = inGrid sheet tr x y"
  by (simp add: inGrid_def)

lemma cellAt_setEntry [simp]:
  "arrayIndex n = None \<Longrightarrow> cellAt (setEntry sheet n a) tr x y = cellAt sheet tr x y"
  by (simp add: cellAt_def)

lemma inGrid_named [simp]: "inGrid (sheet\<lparr>named := m\<rparr>) tr x y = inGrid sheet tr x y"
  by (simp add: inGrid_def)

lemma cellAt_named [simp]: "cellAt (sheet\<lparr>named := m\<rparr>) tr x y = cellAt sheet tr x y"
  by (simp add: cellAt_def)

lemma setEntry_named:
  "arrayIndex n = None \<Longrightarrow> setEntry sheet n a = sheet\<lparr>named := AList.update n a (named sheet)\<rparr>"
  by (simp add: setEntry_def)

lemma pushCells_in_grid:
  "arrayIndex n = None \<Longrightarrow> map_of (named sheet) n = Some a
   \<Longrightarrow> (\<And>x y. (x, y) \<in> set cells \<Longrightarrow> inGrid sheet tr x y)
   \<Longrightarrow> pushCells sheet tr n cells
       = Inr (sheet\<lparr>named := AList.update n
                (a\<lparr>elems := elems a @ map (\<lambda>(x, y). cellAt sheet tr x y) cells\<rparr>) (named sheet)\<rparr>)"
proof (induction cells arbitrary: sheet a)
  case Nil
  from Nil(2) have "AList.update n a (named sheet) = named sheet" by (rule update_triv)
  then show ?case by simp
next
  case (Cons c cells)
  obtain x y where c: "c = (x, y)" by (cases c)
  from Cons.prems(3) [of x y] c have i: "inGrid sheet tr x y" by simp
  define a' where "a' = pushElem a (cellAt sheet tr x y)"
  define sheet' where "sheet' = setEntry sheet n a'"
  have g: "getEntry sheet n = Some a" using Cons.prems(1,2) by (simp add: getEntry_def)
  have "pushCells sheet tr n (c # cells) = pushCells sheet' tr n cells"
    using i g unfolding c sheet'_def a'_def
    by (auto simp add: inGrid_def cellAt_def Let_def split: option.splits)
  also have "\<dots> = Inr (sheet'\<lparr>named := AList.update n
                (a'\<lparr>elems := elems a' @ map (\<lambda>(x, y). cellAt sheet' tr x y) cells\<rparr>)
                (named sheet')\<rparr>)"
  proof (rule Cons.IH [OF Cons.prems(1)])
    show "map_of (named sheet') n = Some a'"
      using Cons.prems(1) by (simp add: sheet'_def update_conv')
    show "inGrid sheet' tr x y" if "(x, y) \<in> set cells" for x y
      using Cons.prems(3) [of x y] that Cons.prems(1) by (simp add: sheet'_def)
  qed
  also have "\<dots> = Inr (sheet\<lparr>named := AList.update n
                (a\<lparr>elems := elems a @ map (\<lambda>(x, y). cellAt sheet tr x y) (c # cells)\<rparr>)
                (named sheet)\<rparr>)"
    using Cons.prems(1) by (simp add: sheet'_def a'_def c setEntry_named pushElem_def update_last)
  finally show ?case .
qed

lemma rangeCells_row:
  "rangeCells \<lparr>cellX = Some sx, cellY = Some sy\<rparr> \<lparr>cellX = Some ex, cellY = Some sy\<rparr>
     = map (\<lambda>x. (x, sy)) [sx..ex]"
  by (simp add: rangeCells_def)

lemma rangeCells_column:
  "rangeCells \<lparr>cellX = Some sx, cellY = Some sy\<rparr> \<lparr>cellX = Some sx, cellY = Some ey\<rparr>
     = map (\<lambda>y. (sx, y)) [sy..ey]"
proof -
  have "concat (map (\<lambda>y. [(sx, y)]) ys) = map (\<lambda>y. (sx, y)) ys" for ys :: "int list"
    by (induction ys) simp_all
  then show ?thesis by (simp add: rangeCells_def)
qed

lemma pushCells_start:
  assumes "plainName n" and "\<And>x y. (x, y) \<in> set cells \<Longrightarrow> inGrid sheet tr x y"
  shows "pushCells (setEntry (setEntry sheet n \<lparr>elems = [], extrapolate = None\<rparr>) n
            \<lparr>elems = [], extrapolate = Some e\<rparr>) tr n cells
       = Inr (sheet\<lparr>named := AList.update n
                \<lparr>elems = map (\<lambda>(x, y). cellAt sheet tr x y) cells, extrapolate = Some e\<rparr>
                (named sheet)\<rparr>)"
proof -
  from assms(1) have p: "arrayIndex n = None" by (simp add: plainName_def)
  let ?s = "setEntry (setEntry sheet n \<lparr>elems = [], extrapolate = None\<rparr>) n
            \<lparr>elems = [], extrapolate = Some e\<rparr>"
  have "pushCells ?s tr n cells
      = Inr (?s\<lparr>named := AList.update n
                (\<lparr>elems = [], extrapolate = Some e\<rparr>
                   \<lparr>elems := elems \<lparr>elems = [], extrapolate = Some e\<rparr>
                      @ map (\<lambda>(x, y). cellAt ?s tr x y) cells\<rparr>) (named ?s)\<rparr>)"
  proof (rule pushCells_in_grid [OF p])
    show "map_of (named ?s) n = Some \<lparr>elems = [], extrapolate = Some e\<rparr>"
      using p by (simp add: update_conv')
    show "inGrid ?s tr x y" if "(x, y) \<in> set cells" for x y
      using assms(2) [OF that] p by simp
  qed
  then show ?thesis using p by (simp add: setEntry_named update_last)
qed

lemma decodeAnimation_range:
  assumes "animX d = None"
    and "animStart d = Some \<lparr>cellX = Some sx, cellY = Some sy\<rparr>"
    and "animEnd d = Some \<lparr>cellX = Some ex, cellY = Some ey\<rparr>"
  shows "decodeAnimation sheet tr n d =
     (if sx \<noteq> ex \<and> sy \<noteq> ey then Inl (AnimationNotLine n)
      else if n = ustr ''length'' then Inl TypeError
      else pushCells (setEntry (setEntry sheet n \<lparr>elems = [], extrapolate = None\<rparr>) n
            \<lparr>elems = [], extrapolate = Some (extrapolateOf d)\<rparr>) tr n
             (rangeCells \<lparr>cellX = Some sx, cellY = Some sy\<rparr> \<lparr>cellX = Some ex, cellY = Some ey\<rparr>))"
  using assms by (simp add: decodeAnimation_def extrapolateOf_def)

lemma decodeAnimation_default_end:
  assumes "animX d = None" and "animStart d = Some s" and "animEnd d = None"
  shows "decodeAnimation sheet tr n d = decodeAnimation sheet tr n (d\<lparr>animEnd := Some s\<rparr>)"
  using assms by (simp add: decodeAnimation_def)

lemma decodeAnimation_single:
  assumes "animStart d = None" and "animX d = Some x" and "animY d = Some y"
    and "plainName n" and "inGrid sheet tr x y"
  shows "decodeAnimation sheet tr n d
     = Inr (sheet\<lparr>named := AList.update n
              \<lparr>elems = [cellAt sheet tr x y], extrapolate = Some (ustr ''clamp'')\<rparr> (named sheet)\<rparr>)"
proof -
  have "pushCells (setEntry (setEntry sheet n \<lparr>elems = [], extrapolate = None\<rparr>) n
            \<lparr>elems = [], extrapolate = Some (ustr ''clamp'')\<rparr>) tr n [(x, y)]
       = Inr (sheet\<lparr>named := AList.update n
                \<lparr>elems = map (\<lambda>(x, y). cellAt sheet tr x y) [(x, y)],
                  extrapolate = Some (ustr ''clamp'')\<rparr> (named sheet)\<rparr>)"
    by (rule pushCells_start [OF assms(4)]) (use assms(5) in simp)
  moreover have "n \<noteq> ustr ''length''" using assms(4) by (simp add: plainName_def)
  moreover have "ustr ''clamp'' \<noteq> []" by (simp add: ustr_def)
  ultimately show ?thesis
    using assms(1-3) by (simp add: decodeAnimation_def rangeCells_def del: pushCells.simps)
qed

text \<open>
  C6, as the code has it. For every entry of the name table: with both or neither of
  \<open>x\<close> and \<open>start\<close> the entry is an error; a missing \<open>end\<close> is the \<open>start\<close>; a start and an
  end that differ in both axes are an error. For a name that is a named property of the
  sheet (not an array index, \<open>length\<close> or \<open>__proto__\<close>) the single-cell form stores the one
  sprite of its cell under the name, with \<open>extrapolate = clamp\<close>, and a horizontal or
  vertical range inside the grid stores the sequence of the sprites of the cells from the
  start coordinate up to the end coordinate, in ascending order (\<open>[sx..ex]\<close> is the list
  \<open>sx, sx + 1, ..., ex\<close>, empty when \<open>ex < sx\<close>). So the sequence runs from the start to
  the end inclusive when the end is not before the start. The rounds for such names
  leave the columns of the sheet as they are, so in a name table of such names every
  entry sees the grid.
\<close>

theorem animation_entry:
  "((animStart d \<noteq> None \<and> animX d \<noteq> None) \<or> (animStart d = None \<and> animX d = None)
      \<longrightarrow> decodeAnimation sheet tr n d = Inl (AnimationFormError n))
   \<and> (animStart d = None \<and> animX d = Some x \<and> animY d = Some y
        \<and> plainName n \<and> inGrid sheet tr x y
      \<longrightarrow> decodeAnimation sheet tr n d
            = Inr (sheet\<lparr>named := AList.update n
                     \<lparr>elems = [cellAt sheet tr x y], extrapolate = Some (ustr ''clamp'')\<rparr>
                     (named sheet)\<rparr>))
   \<and> (animX d = None \<and> animStart d = Some s \<and> animEnd d = None
      \<longrightarrow> decodeAnimation sheet tr n d = decodeAnimation sheet tr n (d\<lparr>animEnd := Some s\<rparr>))
   \<and> (animX d = None \<and> animStart d = Some \<lparr>cellX = Some sx, cellY = Some sy\<rparr>
        \<and> animEnd d = Some \<lparr>cellX = Some ex, cellY = Some ey\<rparr>
      \<longrightarrow> (sx \<noteq> ex \<and> sy \<noteq> ey \<longrightarrow> decodeAnimation sheet tr n d = Inl (AnimationNotLine n))
        \<and> (plainName n \<and> sy = ey \<and> (\<forall>x. sx \<le> x \<and> x \<le> ex \<longrightarrow> inGrid sheet tr x sy)
            \<longrightarrow> decodeAnimation sheet tr n d
                  = Inr (sheet\<lparr>named := AList.update n
                           \<lparr>elems = map (\<lambda>x. cellAt sheet tr x sy) [sx..ex],
                             extrapolate = Some (extrapolateOf d)\<rparr> (named sheet)\<rparr>))
        \<and> (plainName n \<and> sx = ex \<and> (\<forall>y. sy \<le> y \<and> y \<le> ey \<longrightarrow> inGrid sheet tr sx y)
            \<longrightarrow> decodeAnimation sheet tr n d
                  = Inr (sheet\<lparr>named := AList.update n
                           \<lparr>elems = map (\<lambda>y. cellAt sheet tr sx y) [sy..ey],
                             extrapolate = Some (extrapolateOf d)\<rparr> (named sheet)\<rparr>)))
   \<and> (list_all (\<lambda>(n, d). plainName n) ns \<and> namesLoop sheet tr ns = Inr sheet'
      \<longrightarrow> elements sheet' = elements sheet)"
proof (intro conjI impI)
  assume "list_all (\<lambda>(n, d). plainName n) ns \<and> namesLoop sheet tr ns = Inr sheet'"
  then show "elements sheet' = elements sheet"
    using namesLoop_elements [of ns sheet tr sheet'] by simp
next
  assume "(animStart d \<noteq> None \<and> animX d \<noteq> None) \<or> (animStart d = None \<and> animX d = None)"
  then show "decodeAnimation sheet tr n d = Inl (AnimationFormError n)"
    by (auto simp add: decodeAnimation_def)
next
  assume "animStart d = None \<and> animX d = Some x \<and> animY d = Some y
        \<and> plainName n \<and> inGrid sheet tr x y"
  then show "decodeAnimation sheet tr n d
            = Inr (sheet\<lparr>named := AList.update n
                     \<lparr>elems = [cellAt sheet tr x y], extrapolate = Some (ustr ''clamp'')\<rparr>
                     (named sheet)\<rparr>)"
    by (intro decodeAnimation_single) simp_all
next
  assume "animX d = None \<and> animStart d = Some s \<and> animEnd d = None"
  then show "decodeAnimation sheet tr n d = decodeAnimation sheet tr n (d\<lparr>animEnd := Some s\<rparr>)"
    by (intro decodeAnimation_default_end) simp_all
next
  assume r: "animX d = None \<and> animStart d = Some \<lparr>cellX = Some sx, cellY = Some sy\<rparr>
        \<and> animEnd d = Some \<lparr>cellX = Some ex, cellY = Some ey\<rparr>"
  assume "sx \<noteq> ex \<and> sy \<noteq> ey"
  with r show "decodeAnimation sheet tr n d = Inl (AnimationNotLine n)"
    by (simp add: decodeAnimation_range [of d sx sy ex ey])
next
  assume r: "animX d = None \<and> animStart d = Some \<lparr>cellX = Some sx, cellY = Some sy\<rparr>
        \<and> animEnd d = Some \<lparr>cellX = Some ex, cellY = Some ey\<rparr>"
  assume h: "plainName n \<and> sy = ey \<and> (\<forall>x. sx \<le> x \<and> x \<le> ex \<longrightarrow> inGrid sheet tr x sy)"
  then have p: "plainName n" and nl: "n \<noteq> ustr ''length''" by (simp_all add: plainName_def)
  have "pushCells (setEntry (setEntry sheet n \<lparr>elems = [], extrapolate = None\<rparr>) n
            \<lparr>elems = [], extrapolate = Some (extrapolateOf d)\<rparr>) tr n (map (\<lambda>x. (x, sy)) [sx..ex])
       = Inr (sheet\<lparr>named := AList.update n
                \<lparr>elems = map (\<lambda>(x, y). cellAt sheet tr x y) (map (\<lambda>x. (x, sy)) [sx..ex]),
                  extrapolate = Some (extrapolateOf d)\<rparr> (named sheet)\<rparr>)"
    by (rule pushCells_start [OF p]) (use h in auto)
  with r h nl show "decodeAnimation sheet tr n d
                  = Inr (sheet\<lparr>named := AList.update n
                           \<lparr>elems = map (\<lambda>x. cellAt sheet tr x sy) [sx..ex],
                             extrapolate = Some (extrapolateOf d)\<rparr> (named sheet)\<rparr>)"
    by (simp add: decodeAnimation_range [of d sx sy ex ey] rangeCells_row comp_def)
next
  assume r: "animX d = None \<and> animStart d = Some \<lparr>cellX = Some sx, cellY = Some sy\<rparr>
        \<and> animEnd d = Some \<lparr>cellX = Some ex, cellY = Some ey\<rparr>"
  assume h: "plainName n \<and> sx = ex \<and> (\<forall>y. sy \<le> y \<and> y \<le> ey \<longrightarrow> inGrid sheet tr sx y)"
  then have p: "plainName n" and nl: "n \<noteq> ustr ''length''" by (simp_all add: plainName_def)
  have "pushCells (setEntry (setEntry sheet n \<lparr>elems = [], extrapolate = None\<rparr>) n
            \<lparr>elems = [], extrapolate = Some (extrapolateOf d)\<rparr>) tr n (map (\<lambda>y. (sx, y)) [sy..ey])
       = Inr (sheet\<lparr>named := AList.update n
                \<lparr>elems = map (\<lambda>(x, y). cellAt sheet tr x y) (map (\<lambda>y. (sx, y)) [sy..ey]),
                  extrapolate = Some (extrapolateOf d)\<rparr> (named sheet)\<rparr>)"
    by (rule pushCells_start [OF p]) (use h in auto)
  with r h nl show "decodeAnimation sheet tr n d
                  = Inr (sheet\<lparr>named := AList.update n
                           \<lparr>elems = map (\<lambda>y. cellAt sheet tr sx y) [sy..ey],
                             extrapolate = Some (extrapolateOf d)\<rparr> (named sheet)\<rparr>)"
    by (simp add: decodeAnimation_range [of d sx sy ex ey] rangeCells_column comp_def)
qed

theorem animation_entry_witness:
  "animX (rangeEntry 0 0 2 0) = None
   \<and> animStart (rangeEntry 0 0 2 0) = Some \<lparr>cellX = Some 0, cellY = Some 0\<rparr>
   \<and> animEnd (rangeEntry 0 0 2 0) = Some \<lparr>cellX = Some 2, cellY = Some 0\<rparr>
   \<and> plainName (ustr ''run'')
   \<and> inGrid exampleSheet False 0 0 \<and> inGrid exampleSheet False 1 0
   \<and> inGrid exampleSheet False 2 0
   \<and> decodeAnimation exampleSheet False (ustr ''run'') (rangeEntry 0 0 2 0)
       = Inr (exampleSheet\<lparr>named :=
           [(ustr ''run'', \<lparr>elems = [Some 0, Some 4, Some 8], extrapolate = Some (ustr ''loop'')\<rparr>)]\<rparr>)
   \<and> map (\<lambda>r. map_of (sprites exampleSheet ! r) P_tileIndex) [0, 1, 4, 8]
       = [Some (PXY 0 0), Some (PXY 0 0), Some (PXY 1 0), Some (PXY 2 0)]
   \<and> decodeAnimation exampleSheet False (ustr ''run'') (cellEntry 1 0)
       = Inr (exampleSheet\<lparr>named :=
           [(ustr ''run'', \<lparr>elems = [Some 4], extrapolate = Some (ustr ''clamp'')\<rparr>)]\<rparr>)
   \<and> decodeAnimation exampleSheet False (ustr ''run'') (rangeEntry 0 0 1 1)
       = Inl (AnimationNotLine (ustr ''run''))
   \<and> decodeAnimation exampleSheet False (ustr ''run'')
         \<lparr>animX = None, animY = None, animStart = None, animEnd = None, animExtrapolate = None\<rparr>
       = Inl (AnimationFormError (ustr ''run''))
   \<and> list_all (\<lambda>(n, d). plainName n)
         [(ustr ''run'', rangeEntry 0 0 2 0), (ustr ''idle'', cellEntry 3 0)]
   \<and> namesLoop exampleSheet False
         [(ustr ''run'', rangeEntry 0 0 2 0), (ustr ''idle'', cellEntry 3 0)]
       = Inr (exampleSheet\<lparr>named :=
           [(ustr ''run'', \<lparr>elems = [Some 0, Some 4, Some 8], extrapolate = Some (ustr ''loop'')\<rparr>),
            (ustr ''idle'', \<lparr>elems = [Some 12], extrapolate = Some (ustr ''clamp'')\<rparr>)]\<rparr>)
   \<and> elements (exampleSheet\<lparr>named :=
           [(ustr ''run'', \<lparr>elems = [Some 0, Some 4, Some 8], extrapolate = Some (ustr ''loop'')\<rparr>),
            (ustr ''idle'', \<lparr>elems = [Some 12], extrapolate = Some (ustr ''clamp'')\<rparr>)]\<rparr>)
       = elements exampleSheet"
proof -
  have l: "list_all (\<lambda>(n, d). plainName n)
         [(ustr ''run'', rangeEntry 0 0 2 0), (ustr ''idle'', cellEntry 3 0)]"
    by code_simp
  have m: "namesLoop exampleSheet False
         [(ustr ''run'', rangeEntry 0 0 2 0), (ustr ''idle'', cellEntry 3 0)]
       = Inr (exampleSheet\<lparr>named :=
           [(ustr ''run'', \<lparr>elems = [Some 0, Some 4, Some 8], extrapolate = Some (ustr ''loop'')\<rparr>),
            (ustr ''idle'', \<lparr>elems = [Some 12], extrapolate = Some (ustr ''clamp'')\<rparr>)]\<rparr>)"
    by code_simp
  have p: "plainName (ustr ''run'')"
    by code_simp
  have j: "inGrid exampleSheet False 0 0 \<and> inGrid exampleSheet False 1 0
      \<and> inGrid exampleSheet False 2 0"
    by (simp add: exampleSheet_elements inGrid_def)
  have "x = 0 \<or> x = 1 \<or> x = 2" if "0 \<le> x \<and> x \<le> 2" for x :: int
    using that by arith
  with j have i: "\<forall>x. 0 \<le> x \<and> x \<le> 2 \<longrightarrow> inGrid exampleSheet False x 0"
    by blast
  have c: "map (\<lambda>x. cellAt exampleSheet False x 0) [0..2] = [Some 0, Some 4, Some 8]"
    by (simp add: exampleSheet_elements cellAt_def readElem_def upto_rec1)
  have c1: "cellAt exampleSheet False 1 0 = Some 4"
    by (simp add: exampleSheet_elements cellAt_def readElem_def)
  show ?thesis
    using p i j l m exampleSheet_tiles
      animation_entry [where d = "rangeEntry 0 0 2 0" and sheet = exampleSheet and tr = False
        and n = "ustr ''run''" and sx = 0 and sy = 0 and ex = 2 and ey = 0]
      animation_entry [where d = "cellEntry 1 0" and sheet = exampleSheet and tr = False
        and n = "ustr ''run''" and x = 1 and y = 0]
      animation_entry [where d = "rangeEntry 0 0 1 1" and sheet = exampleSheet and tr = False
        and n = "ustr ''run''" and sx = 0 and sy = 0 and ex = 1 and ey = 1]
      animation_entry [where sheet = exampleSheet and tr = False and n = "ustr ''run''"
        and d = "\<lparr>animX = None, animY = None, animStart = None, animEnd = None,
                  animExtrapolate = None\<rparr>"]
    by (simp add: rangeEntry_def cellEntry_def extrapolateOf_def c c1 exampleSheet_named)
qed

text \<open>
  A range whose end lies before its start is not walked from the start to the end: for
  start \<open>(2, 0)\<close> and end \<open>(0, 0)\<close> the loops have no round and the sequence is empty.
  And an animation of the name \<open>0\<close> is stored as the column 0 of the sheet, so that the
  bounds check, which reads \<open>spritesheet[0].length\<close>, throws for every cell: neither the
  range from \<open>(0, 0)\<close> to \<open>(2, 0)\<close> nor the single cell \<open>(1, 0)\<close> is materialized.
\<close>

theorem range_not_walked:
  "decodeAnimation exampleSheet False (ustr ''run'') (rangeEntry 2 0 0 0)
     = Inr (exampleSheet\<lparr>named :=
         [(ustr ''run'', \<lparr>elems = [], extrapolate = Some (ustr ''loop'')\<rparr>)]\<rparr>)
   \<and> decodeAnimation exampleSheet False (ustr ''0'') (rangeEntry 0 0 2 0)
     = Inl (AnimationOutOfBounds 0 0 (ustr ''0''))
   \<and> decodeAnimation exampleSheet False (ustr ''0'') (cellEntry 1 0)
     = Inl (AnimationOutOfBounds 1 0 (ustr ''0''))"
  by code_simp

section \<open>The literal parser\<close>



text \<open>
  The fuel of the model stands for the depth of the JavaScript call stack. More fuel never
  changes a result, every successful call moves the offset forward, and hence a fuel of
  twice the length of the input plus one is enough for every input and every offset: the
  parser always returns, with a value or with its error.
\<close>

lemma fuel_mono_step:
  "(\<forall>s i r. parse n s i = Some r \<longrightarrow> parse (Suc n) s i = Some r)
   \<and> (\<forall>s i a r. parseArray n s i a = Some r \<longrightarrow> parseArray (Suc n) s i a = Some r)
   \<and> (\<forall>s i t r. parseTable n s i t = Some r \<longrightarrow> parseTable (Suc n) s i t = Some r)"
proof (induction n)
  case 0
  show ?case by simp
next
  case (Suc n)
  then have p: "\<And>s i r. parse n s i = Some r \<Longrightarrow> parse (Suc n) s i = Some r"
    and a: "\<And>s i a r. parseArray n s i a = Some r \<Longrightarrow> parseArray (Suc n) s i a = Some r"
    and t: "\<And>s i t r. parseTable n s i t = Some r \<Longrightarrow> parseTable (Suc n) s i t = Some r"
    by blast+
  have 1: "parse (Suc (Suc n)) s i = Some r" if "parse (Suc n) s i = Some r" for s i r
    using that a t
    by (subst parse.simps, subst (asm) parse.simps)
      (auto simp del: parse.simps parseArray.simps parseTable.simps simp add: Let_def
        split: if_splits)
  have 2: "parseArray (Suc (Suc n)) s i a' = Some r" if "parseArray (Suc n) s i a' = Some r" for s i a' r
    using that p a
    by (subst parseArray.simps, subst (asm) parseArray.simps)
      (auto simp del: parse.simps parseArray.simps parseTable.simps
        split: if_splits option.splits sum.splits prod.splits)
  have 3: "parseTable (Suc (Suc n)) s i t' = Some r" if "parseTable (Suc n) s i t' = Some r" for s i t' r
    using that p t
    by (subst parseTable.simps, subst (asm) parseTable.simps)
      (auto simp del: parse.simps parseArray.simps parseTable.simps simp add: Let_def
        split: if_splits option.splits sum.splits prod.splits)
  from 1 2 3 show ?case by blast
qed

lemma parse_more_fuel:
  assumes "parse n s i = Some r" and "n \<le> m"
  shows "parse m s i = Some r"
proof -
  have "parse (n + k) s i = Some r" for k
  proof (induction k)
    case 0
    with assms(1) show ?case by simp
  next
    case (Suc k)
    with fuel_mono_step [of "n + k"] have "parse (Suc (n + k)) s i = Some r" by blast
    then show ?case by (simp del: parse.simps)
  qed
  from this [of "m - n"] assms(2) show ?thesis by (simp del: parse.simps)
qed





















text \<open>
  C8 at the glyph for pi (code unit \<open>0x3C0\<close>): the \<open>case\<close> of the table returns
  \<open>Math.pi\<close>, which is \<open>undefined\<close>, and \<open>-Math.pi\<close>, which is \<open>NaN\<close>.
\<close>

theorem parse_pi_is_undefined:
  "parse (Suc 0) [0x3C0] 0 = Some (Inr (JUndefined, 2))
   \<and> parse (Suc 0) [0x2D, 0x3C0] 0 = Some (Inr (JNumber NaN, 3))"
  by code_simp

section \<open>The manifest: screen size and start mode\<close>

lemma field_update_same: "field (AList.update (ustr k) v obj) k = v"
  by (simp add: field_def update_conv')

lemma field_update_other:
  "ustr k' \<noteq> ustr k \<Longrightarrow> field (AList.update (ustr k) v obj) k' = field obj k'"
  by (simp add: field_def update_conv')

lemma field_defaultScreenSize_modes:
  "field (defaultScreenSize gameJSON) ''modes'' = field gameJSON ''modes''"
proof -
  have "ustr ''modes'' \<noteq> ustr ''screenSize''" by (simp add: ustr_def)
  then show ?thesis by (simp add: defaultScreenSize_def field_update_other)
qed

lemma field_defaultScreenSize_missing:
  assumes "map_of gameJSON (ustr ''screenSize'') = None"
  shows "field (defaultScreenSize gameJSON) ''screenSize''
       = JObject [(ustr ''x'', JNumber (Fin 384)), (ustr ''y'', JNumber (Fin 224))]"
proof -
  from assms have "field gameJSON ''screenSize'' = JUndefined" by (simp add: field_def)
  then show ?thesis by (simp add: defaultScreenSize_def field_update_same)
qed

lemma checkScreenSize_default:
  assumes "map_of gameJSON (ustr ''screenSize'') = None"
  shows "checkScreenSize (defaultScreenSize gameJSON) = Inr ()"
  unfolding checkScreenSize_def field_defaultScreenSize_missing [OF assms]
  by (simp add: bindE_def field_def ustr_def allowedScreenSizes_def strictEqNum_def)

lemma scriptsLoop_json:
  "scriptsLoop mk gameURL xs i gs = Inr gs' \<Longrightarrow> json gs' = json gs"
  by (induction xs arbitrary: i gs) (auto simp add: Let_def split: jsvalue.splits)

lemma scriptsLoop_error:
  "scriptsLoop mk gameURL xs i gs = Inl e \<Longrightarrow> \<exists>k. e = ScriptNotUrl k"
  by (induction xs arbitrary: i gs) (auto simp add: Let_def split: jsvalue.splits)

lemma loadScripts_json: "loadScripts mk gameURL gs = Inr gs' \<Longrightarrow> json gs' = json gs"
  by (auto simp add: loadScripts_def Let_def dest: scriptsLoop_json split: if_splits jsvalue.splits)

lemma loadScripts_error:
  "loadScripts mk gameURL gs = Inl e \<Longrightarrow> e = ScriptsNotArray \<or> (\<exists>k. e = ScriptNotUrl k)"
  by (auto simp add: loadScripts_def Let_def dest: scriptsLoop_error split: if_splits jsvalue.splits)

lemma modesLoop_error:
  "modesLoop mk gameURL xs n gs = Inl e \<Longrightarrow> e = TypeError"
  by (induction xs arbitrary: n gs) (auto simp add: Let_def split: jsvalue.splits)

lemma loadModes_error:
  "loadModes mk gameURL gs = Inl e
   \<Longrightarrow> e = TypeError \<or> e = ModesNotArray \<or> e = NoStartingMode \<or> e = TooManyStartingModes"
  by (auto simp add: loadModes_def dest: modesLoop_error
      split: if_splits jsvalue.splits sum.splits prod.splits)

lemma modesLoop_strings:
  "modesLoop mk gameURL (map JString modeNames) n gs =
     Inr (n + length (filter (\<lambda>name. 0x2A \<in> set name) modeNames),
          gs\<lparr>modes := modes gs @ map (\<lambda>name. (name, modeURL mk gameURL name)) modeNames,
             fetches := fetches gs @ map (\<lambda>name. (modeURL mk gameURL name, ''text'')) modeNames\<rparr>)"
  by (induction modeNames arbitrary: n gs) (simp_all add: Let_def)

text \<open>
  C1. For a manifest that has passed the screen-size check and the script stage and whose
  \<open>modes\<close> entry is an array of modeNames, the handler counts the modeNames that hold the marker
  \<open>*\<close>: with none it fails with \<open>No starting mode\<close>, with more than one with
  \<open>Too many starting modes\<close> (the two manifest errors of the mode stage), and with
  exactly one it passes the mode stage, having recorded and fetched every mode.
\<close>

theorem start_mode_count:
  assumes "checkScreenSize (defaultScreenSize gameJSON) = Inr ()"
    and "loadScripts mk gameURL
           \<lparr>jsonURL = gameURL, json = defaultScreenSize gameJSON, scripts = [], modes = [],
            fetches = []\<rparr> = Inr gs1"
    and "field gameJSON ''modes'' = JArray (map JString modeNames)"
  shows "onGameJSON mk gameURL gameJSON =
     (if length (filter (\<lambda>name. 0x2A \<in> set name) modeNames) = 0 then Inl NoStartingMode
      else if length (filter (\<lambda>name. 0x2A \<in> set name) modeNames) > 1 then Inl TooManyStartingModes
      else Inr (gs1\<lparr>modes := map (\<lambda>name. (name, modeURL mk gameURL name)) modeNames,
                   fetches := fetches gs1
                      @ map (\<lambda>name. (modeURL mk gameURL name, ''text'')) modeNames\<rparr>))"
proof -
  from assms(2) have "json gs1 = defaultScreenSize gameJSON"
    by (auto dest: loadScripts_json)
  then have m: "field (json gs1) ''modes'' = JArray (map JString modeNames)"
    by (simp add: field_defaultScreenSize_modes assms(3))
  have "onGameJSON mk gameURL gameJSON = loadModes mk gameURL gs1"
    by (simp add: onGameJSON_def Let_def bindE_def assms(1,2))
  then show ?thesis
    by (simp add: loadModes_def m modesLoop_strings)
qed

theorem start_mode_count_witness:
  "checkScreenSize (defaultScreenSize
       [(ustr ''modes'', JArray (map JString [ustr ''*Play'', ustr ''Title'']))]) = Inr ()
   \<and> loadScripts (\<lambda>parent child. child) (ustr ''g'')
       \<lparr>jsonURL = ustr ''g'',
        json = defaultScreenSize
          [(ustr ''modes'', JArray (map JString [ustr ''*Play'', ustr ''Title'']))],
        scripts = [], modes = [], fetches = []\<rparr>
     = Inr \<lparr>jsonURL = ustr ''g'',
        json = defaultScreenSize
          [(ustr ''modes'', JArray (map JString [ustr ''*Play'', ustr ''Title'']))],
        scripts = [], modes = [], fetches = []\<rparr>
   \<and> field [(ustr ''modes'', JArray (map JString [ustr ''*Play'', ustr ''Title'']))] ''modes''
     = JArray (map JString [ustr ''*Play'', ustr ''Title''])
   \<and> onGameJSON (\<lambda>parent child. child) (ustr ''g'')
       [(ustr ''modes'', JArray (map JString [ustr ''*Play'', ustr ''Title'']))]
     = Inr \<lparr>jsonURL = ustr ''g'',
        json = defaultScreenSize
          [(ustr ''modes'', JArray (map JString [ustr ''*Play'', ustr ''Title'']))],
        scripts = [],
        modes = [(ustr ''*Play'', ustr ''Play.pyxl''), (ustr ''Title'', ustr ''Title.pyxl'')],
        fetches = [(ustr ''Play.pyxl'', ''text''), (ustr ''Title.pyxl'', ''text'')]\<rparr>"
proof -
  let ?G = "[(ustr ''modes'', JArray (map JString [ustr ''*Play'', ustr ''Title'']))]"
  let ?gs = "\<lparr>jsonURL = ustr ''g'', json = defaultScreenSize ?G, scripts = [], modes = [],
              fetches = []\<rparr>"
  have a: "checkScreenSize (defaultScreenSize ?G) = Inr ()"
    by code_simp
  have b: "loadScripts (\<lambda>parent child. child) (ustr ''g'') ?gs = Inr ?gs"
    by code_simp
  have c: "field ?G ''modes'' = JArray (map JString [ustr ''*Play'', ustr ''Title''])"
    by code_simp
  show ?thesis
    using a b c start_mode_count [OF a b c]
    by (simp add: modeURL_def ustr_def)
qed

lemma modesLoop_json:
  "modesLoop mk gameURL xs n gs = Inr (k, gs') \<Longrightarrow> json gs' = json gs"
  by (induction xs arbitrary: n gs) (auto simp add: Let_def split: jsvalue.splits)

lemma loadModes_json: "loadModes mk gameURL gs = Inr gs' \<Longrightarrow> json gs' = json gs"
  by (auto simp add: loadModes_def dest: modesLoop_json
      split: if_splits jsvalue.splits sum.splits prod.splits)

lemma update_missing: "map_of al k = None \<Longrightarrow> AList.update k v al = al @ [(k, v)]"
  by (induction al) (auto split: if_splits)

lemma defaultScreenSize_missing:
  assumes "map_of gameJSON (ustr ''screenSize'') = None"
  shows "defaultScreenSize gameJSON
       = gameJSON @ [(ustr ''screenSize'',
            JObject [(ustr ''x'', JNumber (Fin 384)), (ustr ''y'', JNumber (Fin 224))])]"
proof -
  from assms have "field gameJSON ''screenSize'' = JUndefined" by (simp add: field_def)
  then show ?thesis by (simp add: defaultScreenSize_def update_missing [OF assms])
qed

lemma defaultScreenSize_present:
  "field gameJSON ''screenSize'' \<noteq> JUndefined \<Longrightarrow> defaultScreenSize gameJSON = gameJSON"
  by (simp add: defaultScreenSize_def)

text \<open>
  C10. For a manifest without a \<open>screenSize\<close> property the handler stores the size
  384 x 224 in the manifest, passes the screen-size check and goes on to the script and
  mode stages with that manifest; it does what it does for the manifest with the property
  \<open>screenSize: {x: 384, y: 224}\<close> written out. When it succeeds, the manifest of the game
  holds that size, and it cannot fail with the unsupported-screen-size error.
\<close>

theorem missing_screen_size_defaults:
  assumes "map_of gameJSON (ustr ''screenSize'') = None"
  shows "field (defaultScreenSize gameJSON) ''screenSize''
           = JObject [(ustr ''x'', JNumber (Fin 384)), (ustr ''y'', JNumber (Fin 224))]
       \<and> checkScreenSize (defaultScreenSize gameJSON) = Inr ()
       \<and> onGameJSON mk gameURL gameJSON
           = bindE (loadScripts mk gameURL
                \<lparr>jsonURL = gameURL,
                 json = gameJSON @ [(ustr ''screenSize'',
                   JObject [(ustr ''x'', JNumber (Fin 384)), (ustr ''y'', JNumber (Fin 224))])],
                 scripts = [], modes = [], fetches = []\<rparr>)
               (loadModes mk gameURL)
       \<and> onGameJSON mk gameURL gameJSON
           = onGameJSON mk gameURL (gameJSON @ [(ustr ''screenSize'',
                JObject [(ustr ''x'', JNumber (Fin 384)), (ustr ''y'', JNumber (Fin 224))])])
       \<and> (\<forall>gs. onGameJSON mk gameURL gameJSON = Inr gs
            \<longrightarrow> field (json gs) ''screenSize''
                  = JObject [(ustr ''x'', JNumber (Fin 384)), (ustr ''y'', JNumber (Fin 224))])
       \<and> onGameJSON mk gameURL gameJSON \<noteq> Inl (NotSupportedScreenSize vx vy)"
proof -
  let ?size = "JObject [(ustr ''x'', JNumber (Fin 384)), (ustr ''y'', JNumber (Fin 224))]"
  let ?G = "gameJSON @ [(ustr ''screenSize'', ?size)]"
  let ?gs = "\<lparr>jsonURL = gameURL, json = ?G, scripts = [], modes = [], fetches = []\<rparr>"
  have d: "defaultScreenSize gameJSON = ?G"
    using assms by (rule defaultScreenSize_missing)
  have f: "field ?G ''screenSize'' = ?size"
    using field_defaultScreenSize_missing [OF assms] unfolding d .
  have c: "checkScreenSize ?G = Inr ()"
    using checkScreenSize_default [OF assms] unfolding d .
  have o: "onGameJSON mk gameURL gameJSON = bindE (loadScripts mk gameURL ?gs) (loadModes mk gameURL)"
    by (simp add: onGameJSON_def Let_def d c bindE_def)
  have "field ?G ''screenSize'' \<noteq> JUndefined" by (simp add: f)
  then have "defaultScreenSize ?G = ?G" by (rule defaultScreenSize_present)
  then have o': "onGameJSON mk gameURL ?G = bindE (loadScripts mk gameURL ?gs) (loadModes mk gameURL)"
    by (simp add: onGameJSON_def Let_def c bindE_def)
  have j: "field (json gs) ''screenSize'' = ?size" if "onGameJSON mk gameURL gameJSON = Inr gs" for gs
  proof -
    from that o obtain gs1 where 1: "loadScripts mk gameURL ?gs = Inr gs1"
      and 2: "loadModes mk gameURL gs1 = Inr gs"
      by (auto simp add: bindE_def split: sum.splits)
    from loadScripts_json [OF 1] loadModes_json [OF 2] have "json gs = ?G" by simp
    with f show ?thesis by simp
  qed
  have n: "onGameJSON mk gameURL gameJSON \<noteq> Inl (NotSupportedScreenSize vx vy)"
  proof
    assume "onGameJSON mk gameURL gameJSON = Inl (NotSupportedScreenSize vx vy)"
    with o have b: "bindE (loadScripts mk gameURL ?gs) (loadModes mk gameURL)
        = Inl (NotSupportedScreenSize vx vy)" by simp
    show False
    proof (cases "loadScripts mk gameURL ?gs")
      case (Inl e)
      with b loadScripts_error [OF Inl] show False by (auto simp add: bindE_def)
    next
      case (Inr gs1)
      with b have "loadModes mk gameURL gs1 = Inl (NotSupportedScreenSize vx vy)"
        by (simp add: bindE_def)
      from loadModes_error [OF this] show False by simp
    qed
  qed
  from f c o o' j n show ?thesis unfolding d by simp
qed

theorem missing_screen_size_defaults_witness:
  "map_of [(ustr ''modes'', JArray [JString (ustr ''*Play'')])] (ustr ''screenSize'') = None
   \<and> field (defaultScreenSize [(ustr ''modes'', JArray [JString (ustr ''*Play'')])]) ''screenSize''
       = JObject [(ustr ''x'', JNumber (Fin 384)), (ustr ''y'', JNumber (Fin 224))]
   \<and> checkScreenSize (defaultScreenSize [(ustr ''modes'', JArray [JString (ustr ''*Play'')])])
       = Inr ()
   \<and> onGameJSON (\<lambda>parent child. child) (ustr ''g'')
         [(ustr ''modes'', JArray [JString (ustr ''*Play'')])]
       = Inr \<lparr>jsonURL = ustr ''g'',
           json = [(ustr ''modes'', JArray [JString (ustr ''*Play'')]),
                   (ustr ''screenSize'',
                    JObject [(ustr ''x'', JNumber (Fin 384)), (ustr ''y'', JNumber (Fin 224))])],
           scripts = [], modes = [(ustr ''*Play'', ustr ''Play.pyxl'')],
           fetches = [(ustr ''Play.pyxl'', ''text'')]\<rparr>
   \<and> onGameJSON (\<lambda>parent child. child) (ustr ''g'')
         [(ustr ''modes'', JArray [JString (ustr ''*Play'')])]
       \<noteq> Inl (NotSupportedScreenSize JUndefined JUndefined)"
proof -
  have a: "map_of [(ustr ''modes'', JArray [JString (ustr ''*Play'')])] (ustr ''screenSize'') = None"
    by (simp add: ustr_def)
  have b: "bindE (loadScripts (\<lambda>parent child. child) (ustr ''g'')
                \<lparr>jsonURL = ustr ''g'',
                 json = [(ustr ''modes'', JArray [JString (ustr ''*Play'')]),
                   (ustr ''screenSize'',
                   JObject [(ustr ''x'', JNumber (Fin 384)), (ustr ''y'', JNumber (Fin 224))])],
                 scripts = [], modes = [], fetches = []\<rparr>)
               (loadModes (\<lambda>parent child. child) (ustr ''g''))
       = Inr \<lparr>jsonURL = ustr ''g'',
           json = [(ustr ''modes'', JArray [JString (ustr ''*Play'')]),
                   (ustr ''screenSize'',
                    JObject [(ustr ''x'', JNumber (Fin 384)), (ustr ''y'', JNumber (Fin 224))])],
           scripts = [], modes = [(ustr ''*Play'', ustr ''Play.pyxl'')],
           fetches = [(ustr ''Play.pyxl'', ''text'')]\<rparr>"
    by code_simp
  note t = missing_screen_size_defaults [OF a, of "\<lambda>parent child. child" "ustr ''g''"
        JUndefined JUndefined]
  from t have 1: "field (defaultScreenSize [(ustr ''modes'', JArray [JString (ustr ''*Play'')])])
         ''screenSize''
       = JObject [(ustr ''x'', JNumber (Fin 384)), (ustr ''y'', JNumber (Fin 224))]"
    and 2: "checkScreenSize (defaultScreenSize [(ustr ''modes'', JArray [JString (ustr ''*Play'')])])
       = Inr ()"
    and 4: "onGameJSON (\<lambda>parent child. child) (ustr ''g'')
         [(ustr ''modes'', JArray [JString (ustr ''*Play'')])]
       \<noteq> Inl (NotSupportedScreenSize JUndefined JUndefined)"
    by blast+
  from t have "onGameJSON (\<lambda>parent child. child) (ustr ''g'')
         [(ustr ''modes'', JArray [JString (ustr ''*Play'')])]
       = bindE (loadScripts (\<lambda>parent child. child) (ustr ''g'')
                \<lparr>jsonURL = ustr ''g'',
                 json = [(ustr ''modes'', JArray [JString (ustr ''*Play'')])]
                   @ [(ustr ''screenSize'',
                   JObject [(ustr ''x'', JNumber (Fin 384)), (ustr ''y'', JNumber (Fin 224))])],
                 scripts = [], modes = [], fetches = []\<rparr>)
               (loadModes (\<lambda>parent child. child) (ustr ''g''))"
    by blast
  with b have 3: "onGameJSON (\<lambda>parent child. child) (ustr ''g'')
         [(ustr ''modes'', JArray [JString (ustr ''*Play'')])]
       = Inr \<lparr>jsonURL = ustr ''g'',
           json = [(ustr ''modes'', JArray [JString (ustr ''*Play'')]),
                   (ustr ''screenSize'',
                    JObject [(ustr ''x'', JNumber (Fin 384)), (ustr ''y'', JNumber (Fin 224))])],
           scripts = [], modes = [(ustr ''*Play'', ustr ''Play.pyxl'')],
           fetches = [(ustr ''Play.pyxl'', ''text'')]\<rparr>"
    by simp
  from a 1 2 3 4 show ?thesis by (intro conjI)
qed

end
